theory Spec2Isabelle
  imports Complex_Main
begin

section \<open>JavaScript values\<close>

text \<open>
  The translation store (\<^verbatim>\<open>src/requests/backend/translations/data.ts\<close>) keeps plain
  JavaScript values in an IndexedDB object store and compares them with
  \<^verbatim>\<open>isEqualIntersection\<close>, whose parameters have type \<^verbatim>\<open>any\<close>. Data, that is what the
  criteria and the stored entries are made of, are modelled as finite trees. A number is
  a rational (every finite double is one; \<^verbatim>\<open>+0\<close> and \<^verbatim>\<open>-0\<close> are identified, as both
  \<^verbatim>\<open>===\<close> and lodash's comparison identify them), an infinity or \<^verbatim>\<open>NaN\<close>. An object
  is the list of its own enumerable properties in the order \<^verbatim>\<open>Object.keys\<close> lists them.
\<close>

datatype jsnum = Finite rat | PosInfinity | NegInfinity | NaN

datatype jsval =
    JUndefined
  | JNull
  | JBool bool
  | JNum jsnum
  | JStr string
  | JArr "jsval list"
  | JObj "(string \<times> jsval) list"

type_synonym props = "(string \<times> jsval) list"

text \<open>
  A member expression \<^verbatim>\<open>v[k]\<close> reads through the prototype chain, so it can yield a
  value that is not data: a built-in function such as \<^verbatim>\<open>Object\<close> (for the key
  \<^verbatim>\<open>constructor\<close>) or a built-in object such as \<^verbatim>\<open>Object.prototype\<close> (for
  \<^verbatim>\<open>__proto__\<close>). A value of type \<^verbatim>\<open>any\<close> is therefore data or a built-in, and a
  built-in is known by its name: two of them are the same object exactly when they have
  the same name. Functions and objects of other kinds made by the caller are outside the
  model, and so is the one built-in object that is an array, \<^verbatim>\<open>Array.prototype\<close>: it
  is the value of \<^verbatim>\<open>__proto__\<close> on an array, and the matcher reads no property of an
  array.
\<close>

datatype jsany = Data jsval | BuiltinFunction string | BuiltinObject string

datatype jstype = TUndefined | TObject | TBoolean | TNumber | TString | TFunction

datatype error =
    TypeError       \<comment> \<open>thrown by the language or by a method given an argument out of range\<close>
  | DataError       \<comment> \<open>thrown by IndexedDB: the argument is not a valid key\<close>
  | RequiredError   \<comment> \<open>\<^verbatim>\<open>new Error('Parameter `originalText` is required to search')\<close>\<close>
  | RequestError    \<comment> \<open>a storage request failed; its transaction is aborted\<close>

text \<open>The \<^verbatim>\<open>typeof\<close> operator; \<^verbatim>\<open>typeof null\<close> is \<^verbatim>\<open>'object'\<close>.\<close>

fun typeof :: "jsany \<Rightarrow> jstype" where
  "typeof (Data JUndefined) = TUndefined"
| "typeof (Data JNull) = TObject"
| "typeof (Data (JBool b)) = TBoolean"
| "typeof (Data (JNum n)) = TNumber"
| "typeof (Data (JStr s)) = TString"
| "typeof (Data (JArr xs)) = TObject"
| "typeof (Data (JObj ps)) = TObject"
| "typeof (BuiltinFunction f) = TFunction"
| "typeof (BuiltinObject b) = TObject"

fun isArray :: "jsany \<Rightarrow> bool" where
  "isArray (Data (JArr xs)) = True"
| "isArray v = False"

text \<open>
  Strict equality \<^verbatim>\<open>a === b\<close>. Primitives are compared by value and \<^verbatim>\<open>NaN\<close> differs
  from itself. Arrays and objects are compared by reference; every use below compares a
  value of the caller's criteria with a value read from a stored entry, which is a fresh
  structured clone, so two composite data are never the same reference. A built-in is
  equal to itself only.
\<close>

fun strict_eq_data :: "jsval \<Rightarrow> jsval \<Rightarrow> bool" where
  "strict_eq_data JUndefined b = (b = JUndefined)"
| "strict_eq_data JNull b = (b = JNull)"
| "strict_eq_data (JBool x) b = (b = JBool x)"
| "strict_eq_data (JNum x) b = (x \<noteq> NaN \<and> b = JNum x)"
| "strict_eq_data (JStr s) b = (b = JStr s)"
| "strict_eq_data (JArr xs) b = False"
| "strict_eq_data (JObj ps) b = False"

fun strict_eq :: "jsany \<Rightarrow> jsany \<Rightarrow> bool" where
  "strict_eq (Data a) (Data b) = strict_eq_data a b"
| "strict_eq a b = (a = b)"

text \<open>
  lodash's \<^verbatim>\<open>isEqual\<close> is a library function, not part of the repository. It is
  modelled from its documentation: a deep comparison in which arrays are equal when they
  have the same length and equal elements position by position, plain objects are equal
  when they have the same own keys with equal values, and primitives are compared by
  SameValueZero (so \<^verbatim>\<open>NaN\<close> equals itself). The matcher calls it on two arrays only.
\<close>

fun isEqual :: "jsval \<Rightarrow> jsval \<Rightarrow> bool"
  and isEqual_elems :: "jsval list \<Rightarrow> jsval list \<Rightarrow> bool"
  and isEqual_props :: "props \<Rightarrow> props \<Rightarrow> bool" where
  "isEqual (JArr xs) b = (case b of JArr ys \<Rightarrow> isEqual_elems xs ys | _ \<Rightarrow> False)"
| "isEqual (JObj ps) b =
     (case b of JObj qs \<Rightarrow> length ps = length qs \<and> isEqual_props ps qs | _ \<Rightarrow> False)"
| "isEqual a b = (a = b)"
| "isEqual_elems [] ys = (ys = [])"
| "isEqual_elems (x # xs) ys =
     (case ys of [] \<Rightarrow> False | y # ys' \<Rightarrow> isEqual x y \<and> isEqual_elems xs ys')"
| "isEqual_props [] qs = True"
| "isEqual_props ((k, v) # ps) qs =
     (case map_of qs k of None \<Rightarrow> False | Some w \<Rightarrow> isEqual v w \<and> isEqual_props ps qs)"

fun isEqual_any :: "jsany \<Rightarrow> jsany \<Rightarrow> bool" where
  "isEqual_any (Data a) (Data b) = isEqual a b"
| "isEqual_any a b = (a = b)"

subsection \<open>Property keys and property access\<close>

text \<open>The decimal numeral of an array index, as \<^verbatim>\<open>Object.keys\<close> prints it.\<close>

definition digit :: "nat \<Rightarrow> char" where
  "digit d = ''0123456789'' ! d"

function show_nat :: "nat \<Rightarrow> string" where
  "show_nat n = (if n < 10 then [digit n] else show_nat (n div 10) @ [digit (n mod 10)])"
  by pat_completeness auto
termination
  by (relation "measure id") auto

declare show_nat.simps [simp del]

definition is_numeral :: "string \<Rightarrow> bool" where
  "is_numeral k \<longleftrightarrow> k \<noteq> [] \<and> list_all (\<lambda>c. c \<in> set ''0123456789'') k"

definition index_props :: "jsval list \<Rightarrow> props" where
  "index_props xs = zip (map show_nat [0..<length xs]) xs"

text \<open>
  \<^verbatim>\<open>Object.keys(v)\<close>: a TypeError on \<^verbatim>\<open>null\<close> and \<^verbatim>\<open>undefined\<close>, no key for a
  boolean or a number, the indices of a string or an array, the own keys of an object,
  and no key for a built-in, whose properties are not enumerable.
\<close>

fun object_keys :: "jsany \<Rightarrow> error + string list" where
  "object_keys (Data JUndefined) = Inl TypeError"
| "object_keys (Data JNull) = Inl TypeError"
| "object_keys (Data (JBool b)) = Inr []"
| "object_keys (Data (JNum n)) = Inr []"
| "object_keys (Data (JStr s)) = Inr (map show_nat [0..<length s])"
| "object_keys (Data (JArr xs)) = Inr (map show_nat [0..<length xs])"
| "object_keys (Data (JObj ps)) = Inr (map fst ps)"
| "object_keys (BuiltinFunction f) = Inr []"
| "object_keys (BuiltinObject b) = Inr []"

definition lookup_prop :: "props \<Rightarrow> string \<Rightarrow> jsval" where
  "lookup_prop ps k = (case map_of ps k of None \<Rightarrow> JUndefined | Some v \<Rightarrow> v)"

text \<open>The own properties of a string or an array: its indices and \<^verbatim>\<open>length\<close>.\<close>

definition own_indexed :: "jsval list \<Rightarrow> string \<Rightarrow> jsval option" where
  "own_indexed xs k =
     (case map_of (index_props xs) k of
        Some v \<Rightarrow> Some v
      | None \<Rightarrow> if k = ''length'' then Some (JNum (Finite (of_nat (length xs)))) else None)"

text \<open>
  The built-in objects belong to the JavaScript realm in which the program runs, not to
  the program, and their properties differ from one engine to the next. The realm is a
  parameter. It gives, for each kind of data, the value that a key which is not an own
  property has through the prototype chain (\<^verbatim>\<open>undefined\<close> when the chain has none), and
  the properties of the built-ins themselves, of which a getter may throw a TypeError
  (\<open>None\<close>). Two facts of every realm are fixed here: the prototypes of data have no
  getter that throws, and no built-in has a property whose name is a decimal numeral.
\<close>

datatype receiver =
  ObjectReceiver | ArrayReceiver | StringReceiver | NumberReceiver | BooleanReceiver

record realm =
  inherited :: "receiver \<Rightarrow> string \<Rightarrow> jsany"
  builtin_prop :: "string \<Rightarrow> string \<Rightarrow> jsany option"

definition from_prototype :: "realm \<Rightarrow> receiver \<Rightarrow> string \<Rightarrow> jsany" where
  "from_prototype R r k = (if is_numeral k then Data JUndefined else inherited R r k)"

definition from_builtin :: "realm \<Rightarrow> string \<Rightarrow> string \<Rightarrow> error + jsany" where
  "from_builtin R b k =
     (if is_numeral k then Inr (Data JUndefined)
      else case builtin_prop R b k of None \<Rightarrow> Inl TypeError | Some v \<Rightarrow> Inr v)"

text \<open>
  The member expression \<^verbatim>\<open>v[k]\<close>: a TypeError on \<^verbatim>\<open>null\<close> and \<^verbatim>\<open>undefined\<close>, the
  own property when there is one, the inherited one otherwise.
\<close>

fun getProp :: "realm \<Rightarrow> jsany \<Rightarrow> string \<Rightarrow> error + jsany" where
  "getProp R (Data JUndefined) k = Inl TypeError"
| "getProp R (Data JNull) k = Inl TypeError"
| "getProp R (Data (JBool b)) k = Inr (from_prototype R BooleanReceiver k)"
| "getProp R (Data (JNum n)) k = Inr (from_prototype R NumberReceiver k)"
| "getProp R (Data (JStr s)) k =
     Inr (case own_indexed (map (\<lambda>c. JStr [c]) s) k of
            Some v \<Rightarrow> Data v
          | None \<Rightarrow> from_prototype R StringReceiver k)"
| "getProp R (Data (JArr xs)) k =
     Inr (case own_indexed xs k of
            Some v \<Rightarrow> Data v
          | None \<Rightarrow> from_prototype R ArrayReceiver k)"
| "getProp R (Data (JObj ps)) k =
     Inr (case map_of ps k of
            Some v \<Rightarrow> Data v
          | None \<Rightarrow> from_prototype R ObjectReceiver k)"
| "getProp R (BuiltinFunction f) k = from_builtin R f k"
| "getProp R (BuiltinObject b) k = from_builtin R b k"

text \<open>
  \<^verbatim>\<open>Array.prototype.every\<close> with a callback that may throw: the callback runs on the
  elements in order, the first \<^verbatim>\<open>false\<close> ends the loop, an exception leaves it.
\<close>

fun every :: "('a \<Rightarrow> error + bool) \<Rightarrow> 'a list \<Rightarrow> error + bool" where
  "every f [] = Inr True"
| "every f (x # xs) =
     (case f x of
        Inl e \<Rightarrow> Inl e
      | Inr ok \<Rightarrow> if ok then every f xs else Inr False)"

lemma every_cong [fundef_cong]:
  "xs = ys \<Longrightarrow> (\<And>x. x \<in> set ys \<Longrightarrow> f x = g x) \<Longrightarrow> every f xs = every g ys"
  by (induction ys arbitrary: xs) (auto split: sum.splits)

text \<open>The measure of the recursion of the matcher.\<close>

fun weight :: "jsany \<Rightarrow> nat" where
  "weight (Data v) = size v"
| "weight (BuiltinFunction f) = 0"
| "weight (BuiltinObject b) = 1"

lemma own_value_size: "map_of ps k = Some v \<Longrightarrow> size v < size (JObj ps)"
proof -
  assume "map_of ps k = Some v"
  then have "(k, v) \<in> set ps" by (rule map_of_SomeD)
  then have "size v < Suc (size_list (size_prod (\<lambda>_. 0) size) ps)"
    by (induction ps) auto
  then show ?thesis by simp
qed

lemma digit_numeral: "d < 10 \<Longrightarrow> digit d \<in> set ''0123456789''"
  unfolding digit_def by (rule nth_mem) simp

lemma is_numeral_show_nat: "is_numeral (show_nat n)"
proof (induction n rule: show_nat.induct)
  case (1 n)
  show ?case
  proof (cases "n < 10")
    case True
    then show ?thesis
      by (subst show_nat.simps) (simp add: is_numeral_def digit_numeral del: set_simps)
  next
    case False
    with 1 have "is_numeral (show_nat (n div 10))" by simp
    moreover have "digit (n mod 10) \<in> set ''0123456789''" by (rule digit_numeral) simp
    ultimately show ?thesis using False
      by (subst show_nat.simps) (simp add: is_numeral_def del: set_simps)
  qed
qed

lemma own_index_present:
  assumes "k \<in> set (map show_nat [0..<length xs])"
  shows "\<exists>v \<in> set xs. own_indexed xs k = Some v"
proof -
  have "length (map show_nat [0..<length xs]) = length xs" by simp
  from map_of_zip_is_Some [OF this] assms obtain v
    where v: "map_of (index_props xs) k = Some v"
    unfolding index_props_def by blast
  then have "(k, v) \<in> set (index_props xs)" by (rule map_of_SomeD)
  then have "v \<in> set xs" unfolding index_props_def by (rule set_zip_rightD)
  with v show ?thesis by (auto simp: own_indexed_def)
qed

lemma numeral_prop_weight:
  assumes "is_numeral k" and "typeof obj = TObject" and "getProp R obj k = Inr v"
  shows "weight v < weight obj"
proof (cases obj)
  case (Data d)
  with assms(2,3) show ?thesis
  proof (cases d)
    case (JObj qs)
    with Data assms show ?thesis
      by (auto simp: from_prototype_def dest: own_value_size split: option.splits)
  next
    case (JArr xs)
    have "x \<in> set xs \<Longrightarrow> size x < Suc (size_list size xs)" for x
      by (induction xs) auto
    moreover have "own_indexed xs k = Some x \<Longrightarrow> x \<in> set xs \<or> size x = 0" for x
      by (auto simp: own_indexed_def index_props_def split: option.splits if_splits
            dest!: map_of_SomeD set_zip_rightD)
    ultimately show ?thesis using JArr Data assms
      by (fastforce simp: from_prototype_def split: option.splits)
  qed (use Data assms in auto)
next
  case (BuiltinFunction f)
  with assms show ?thesis by simp
next
  case (BuiltinObject b)
  with assms show ?thesis by (auto simp: from_builtin_def)
qed

section \<open>Partial-equality matching\<close>

text \<open>
  \<^verbatim>\<open>isEqualIntersection\<close> (data.ts, lines 157--175), branch by branch. The recursion
  descends into \<^verbatim>\<open>obj1[key]\<close> and \<^verbatim>\<open>obj2[key]\<close> for the keys of \<^verbatim>\<open>obj1\<close>. It
  terminates: \<^verbatim>\<open>obj1[key]\<close> is a part of \<^verbatim>\<open>obj1\<close>, smaller than it unless \<^verbatim>\<open>obj1\<close> is a
  string, and then the key is an index and \<^verbatim>\<open>obj2[key]\<close> is smaller than \<^verbatim>\<open>obj2\<close>.
\<close>

function isEqualIntersection :: "realm \<Rightarrow> jsany \<Rightarrow> jsany \<Rightarrow> error + bool" where
  "isEqualIntersection R obj1 obj2 =
     (if typeof obj1 \<noteq> TObject \<and> typeof obj2 \<noteq> TObject then Inr (strict_eq obj1 obj2)
      else if isArray obj1 \<and> isArray obj2 then Inr (isEqual_any obj1 obj2)
      else if isArray obj1 \<or> isArray obj2 then Inr False
      else case object_keys obj1 of
             Inl e \<Rightarrow> Inl e
           | Inr keys \<Rightarrow>
               every (\<lambda>key.
                 case getProp R obj1 key of
                   Inl e \<Rightarrow> Inl e
                 | Inr v1 \<Rightarrow>
                     (case getProp R obj2 key of
                        Inl e \<Rightarrow> Inl e
                      | Inr v2 \<Rightarrow> isEqualIntersection R v1 v2)) keys)"
  by pat_completeness auto
termination
proof (relation "measures [\<lambda>(R, a, b). weight a, \<lambda>(R, a, b). weight b]")
  show "wf (measures [\<lambda>(R, a, b). weight a, \<lambda>(R, a, b). weight b])" by simp
next
  fix R :: realm and obj1 obj2 :: jsany and keys key v1 v2
  assume nonprim: "\<not> (typeof obj1 \<noteq> TObject \<and> typeof obj2 \<noteq> TObject)"
    and noarr: "\<not> (isArray obj1 \<or> isArray obj2)"
    and keys: "object_keys obj1 = Inr keys" and key: "key \<in> set keys"
    and g1: "getProp R obj1 key = Inr v1" and g2: "getProp R obj2 key = Inr v2"
  have "weight v1 < weight obj1 \<or> (weight v1 = weight obj1 \<and> weight v2 < weight obj2)"
  proof (cases obj1)
    case (Data d)
    show ?thesis
    proof (cases d)
      case (JObj ps)
      with Data keys key have "map_of ps key \<noteq> None"
        by (auto simp: map_of_eq_None_iff)
      then obtain v where v: "map_of ps key = Some v" by blast
      from g1 have "v1 = Data v" unfolding Data JObj by (simp add: v)
      with own_value_size [OF v] show ?thesis unfolding Data JObj by simp
    next
      case (JStr s)
      from keys key have in_keys: "key \<in> set (map show_nat [0..<length s])"
        unfolding Data JStr by auto
      then have num: "is_numeral key" using is_numeral_show_nat by auto
      from in_keys have "key \<in> set (map show_nat [0..<length (map (\<lambda>c. JStr [c]) s)])"
        by simp
      from own_index_present [OF this] obtain v
        where v: "own_indexed (map (\<lambda>c. JStr [c]) s) key = Some v"
          and mem: "v \<in> set (map (\<lambda>c. JStr [c]) s)" by blast
      from mem have "size v = 0" by auto
      moreover from g1 have "v1 = Data v" unfolding Data JStr by (simp add: v)
      ultimately have "weight v1 = weight obj1" unfolding Data JStr by simp
      moreover from nonprim have "typeof obj2 = TObject" unfolding Data JStr by simp
      with num have "weight v2 < weight obj2" using g2 by (rule numeral_prop_weight)
      ultimately show ?thesis by simp
    next
      case JUndefined
      with keys show ?thesis unfolding Data by simp
    next
      case JNull
      with keys show ?thesis unfolding Data by simp
    next
      case (JBool x)
      with keys key show ?thesis unfolding Data by simp
    next
      case (JNum x)
      with keys key show ?thesis unfolding Data by simp
    next
      case (JArr xs)
      with noarr show ?thesis unfolding Data by simp
    qed
  next
    case (BuiltinFunction f)
    with keys key show ?thesis by simp
  next
    case (BuiltinObject b)
    with keys key show ?thesis by simp
  qed
  then show "((R, v1, v2), (R, obj1, obj2))
               \<in> measures [\<lambda>(R, a, b). weight a, \<lambda>(R, a, b). weight b]"
    by auto
qed

declare isEqualIntersection.simps [simp del]

section \<open>The object store\<close>

text \<open>
  \<^verbatim>\<open>ITranslationEntry\<close> (data.ts, lines 8--12). The type \<^verbatim>\<open>ITranslation\<close> is declared
  in a file that is not part of the sources at hand; it is taken as an arbitrary object,
  that is, a list of properties.
\<close>

record ITranslationEntry =
  translation :: props
  timestamp :: jsnum
  translator :: "string option"

definition entry_props :: "ITranslationEntry \<Rightarrow> props" where
  "entry_props e =
     [(''translation'', JObj (translation e)), (''timestamp'', JNum (timestamp e))] @
     (case translator e of None \<Rightarrow> [] | Some t \<Rightarrow> [(''translator'', JStr t)])"

text \<open>
  The object store \<^verbatim>\<open>translations\<close> is created with \<^verbatim>\<open>keyPath: 'id'\<close> and
  \<^verbatim>\<open>autoIncrement: true\<close> (lines 50--53): it has a key generator and in-line keys. Its
  state is the list of records by ascending primary key and the current number of the key
  generator, which starts at 1 and is never decreased. Opening the database
  (\<^verbatim>\<open>getDB\<close>) creates this store empty on first use and otherwise leaves it as it is.
\<close>

record store =
  records :: "(nat \<times> jsval) list"
  keyGenerator :: nat

definition empty_store :: store where
  "empty_store = \<lparr>records = [], keyGenerator = 1\<rparr>"

definition store_ok :: "store \<Rightarrow> bool" where
  "store_ok s \<longleftrightarrow>
     sorted_wrt (<) (map fst (records s)) \<and> list_all (\<lambda>r. fst r < keyGenerator s) (records s)"

definition key_num :: "nat \<Rightarrow> jsnum" where
  "key_num k = Finite (of_nat k)"

text \<open>
  \<^verbatim>\<open>addEntry\<close> (lines 66--69) is \<^verbatim>\<open>db.add('translations', entry)\<close>. The entry has no
  property \<^verbatim>\<open>id\<close>, so the store takes the key from its generator, and, the keys being
  in-line, stores a clone of the entry into which the key has been injected at the key
  path \<^verbatim>\<open>id\<close>. The promise resolves to the key.
\<close>

definition stored_value :: "ITranslationEntry \<Rightarrow> nat \<Rightarrow> jsval" where
  "stored_value entry key = JObj (entry_props entry @ [(''id'', JNum (key_num key))])"

definition addEntry :: "ITranslationEntry \<Rightarrow> store \<Rightarrow> nat \<times> store" where
  "addEntry entry s =
     (let key = keyGenerator s
      in (key, \<lparr>records = records s @ [(key, stored_value entry key)],
                keyGenerator = Suc key\<rparr>))"

text \<open>
  \<^verbatim>\<open>deleteEntry\<close> (lines 71--74) and \<^verbatim>\<open>getEntry\<close> (lines 76--79) take a number.
  \<^verbatim>\<open>NaN\<close> is not a valid key and makes IndexedDB throw a DataError; any other number
  is a valid key, whether a record has it or not. \<^verbatim>\<open>db.get\<close> resolves to
  \<^verbatim>\<open>undefined\<close>, here \<open>None\<close>, when no record has the key.
\<close>

definition deleteEntry :: "jsnum \<Rightarrow> store \<Rightarrow> error + store" where
  "deleteEntry entryId s =
     (if entryId = NaN then Inl DataError
      else Inr (s\<lparr>records := filter (\<lambda>r. key_num (fst r) \<noteq> entryId) (records s)\<rparr>))"

definition getEntry :: "jsnum \<Rightarrow> store \<Rightarrow> error + jsval option" where
  "getEntry entryId s =
     (if entryId = NaN then Inl DataError
      else Inr (map_option snd (find (\<lambda>r. key_num (fst r) = entryId) (records s))))"

text \<open>\<^verbatim>\<open>flush\<close> (lines 102--108) deletes the key range from 0 upwards.\<close>

definition flush :: "store \<Rightarrow> store" where
  "flush s = s\<lparr>records := filter (\<lambda>r. \<not> 0 \<le> fst r) (records s)\<rparr>"

subsection \<open>Paginated enumeration\<close>

datatype sort_order = Asc | Desc

definition is_positive :: "int option \<Rightarrow> bool" where
  "is_positive n = (case n of None \<Rightarrow> False | Some m \<Rightarrow> m > 0)"

text \<open>
  \<^verbatim>\<open>IDBCursor.advance(count)\<close> declares its parameter \<^verbatim>\<open>[EnforceRange] unsigned long\<close>:
  a count that is not in the range of that type, 0 to \<open>2\<^sup>3\<^sup>2 - 1\<close>, is a TypeError.
\<close>

definition unsigned_long :: "int \<Rightarrow> bool" where
  "unsigned_long n \<longleftrightarrow> 0 \<le> n \<and> n \<le> 4294967295"

text \<open>
  The loop of \<^verbatim>\<open>getEntries\<close> (lines 130--146). The cursor is the list of the records
  from its position on, in the direction of the traversal. The async iterator of the
  \<^verbatim>\<open>idb\<close> library moves the cursor by one record after each round, unless the body
  called \<^verbatim>\<open>cursor.advance(from)\<close>, which moves it by \<^verbatim>\<open>from\<close> records instead, or
  throws. The counter is incremented only when \<^verbatim>\<open>limit\<close> is defined, \<^verbatim>\<open>&&\<close> being
  lazy. The offset and the limit are integers.
\<close>

function getEntries_loop ::
  "int option \<Rightarrow> int option \<Rightarrow> bool \<Rightarrow> int \<Rightarrow> (nat \<times> jsval) list \<Rightarrow> (nat \<times> jsval) list
     \<Rightarrow> error + (nat \<times> jsval) list" where
  "getEntries_loop from limit isJumped counter [] entries = Inr entries"
| "getEntries_loop from limit isJumped counter (cur # rest) entries =
     (if \<not> isJumped \<and> is_positive from
      then if unsigned_long (the from)
           then getEntries_loop from limit True counter (drop (nat (the from)) (cur # rest))
                  entries
           else Inl TypeError
      else case limit of
             None \<Rightarrow> getEntries_loop from limit isJumped counter rest (entries @ [cur])
           | Some l \<Rightarrow>
               if counter + 1 > l then Inr entries
               else getEntries_loop from limit isJumped (counter + 1) rest (entries @ [cur]))"
  by pat_completeness auto
termination
  by (relation "measure (\<lambda>(from, limit, isJumped, counter, cursor, entries).
        2 * length cursor + (if isJumped then 0 else 1))")
     (auto simp: is_positive_def split: option.splits)

text \<open>
  \<^verbatim>\<open>getEntries\<close> (lines 110--152). \<^verbatim>\<open>options\<close> may be absent, and the order is then
  \<^verbatim>\<open>'desc'\<close>. The cursor is opened on the whole store, in direction \<^verbatim>\<open>'prev'\<close> for
  \<^verbatim>\<open>'desc'\<close> and \<^verbatim>\<open>'next'\<close> otherwise; on an empty store it is \<^verbatim>\<open>null\<close> and the loop
  is skipped.
\<close>

definition openCursor :: "sort_order \<Rightarrow> store \<Rightarrow> (nat \<times> jsval) list" where
  "openCursor order s = (if order = Desc then rev (records s) else records s)"

definition getEntries ::
  "int option \<Rightarrow> int option \<Rightarrow> sort_order option \<Rightarrow> store
     \<Rightarrow> error + (nat \<times> jsval) list" where
  "getEntries from limit options s =
     (let order = (case options of None \<Rightarrow> Desc | Some ord \<Rightarrow> ord);
          startCursor = openCursor order s
      in getEntries_loop from limit False 0 startCursor [])"

subsection \<open>The index on the original text\<close>

text \<open>
  The index \<^verbatim>\<open>originalText\<close> has the key path \<^verbatim>\<open>translation.originalText\<close> and is not
  unique (lines 56--58). IndexedDB evaluates a key path by own properties of objects; a
  step that finds no property, or finds \<^verbatim>\<open>undefined\<close>, fails. The value found must
  convert to a key: a number other than \<^verbatim>\<open>NaN\<close>, a string, or an array of keys. A
  record whose value yields no key is not in the index.
\<close>

datatype idbkey = KNumber jsnum | KString string | KArray "idbkey list"

fun to_key :: "jsval \<Rightarrow> idbkey option" where
  "to_key (JNum n) = (if n = NaN then None else Some (KNumber n))"
| "to_key (JStr s) = Some (KString s)"
| "to_key (JArr xs) = map_option KArray (those (map to_key xs))"
| "to_key v = None"

fun own_prop :: "jsval \<Rightarrow> string \<Rightarrow> jsval option" where
  "own_prop (JObj ps) k =
     (case map_of ps k of
        None \<Rightarrow> None
      | Some v \<Rightarrow> if v = JUndefined then None else Some v)"
| "own_prop v k = None"

definition index_key :: "jsval \<Rightarrow> idbkey option" where
  "index_key v =
     (case own_prop v ''translation'' of
        None \<Rightarrow> None
      | Some t \<Rightarrow> (case own_prop t ''originalText'' of None \<Rightarrow> None | Some ot \<Rightarrow> to_key ot))"

text \<open>
  The order of keys in IndexedDB: numbers before strings before arrays, numbers by value,
  strings by their code units, arrays element by element. An index lists its records by
  index key and, for equal index keys, by primary key.
\<close>

fun num_less :: "jsnum \<Rightarrow> jsnum \<Rightarrow> bool" where
  "num_less (Finite x) (Finite y) = (x < y)"
| "num_less (Finite x) PosInfinity = True"
| "num_less NegInfinity (Finite y) = True"
| "num_less NegInfinity PosInfinity = True"
| "num_less a b = False"

fun str_less :: "string \<Rightarrow> string \<Rightarrow> bool" where
  "str_less [] ys = (ys \<noteq> [])"
| "str_less (x # xs) [] = False"
| "str_less (x # xs) (y # ys) =
     ((of_char x :: nat) < of_char y \<or> (x = y \<and> str_less xs ys))"

fun key_less :: "idbkey \<Rightarrow> idbkey \<Rightarrow> bool"
  and keys_less :: "idbkey list \<Rightarrow> idbkey list \<Rightarrow> bool" where
  "key_less (KNumber a) b = (case b of KNumber c \<Rightarrow> num_less a c | _ \<Rightarrow> True)"
| "key_less (KString a) b =
     (case b of KNumber c \<Rightarrow> False | KString c \<Rightarrow> str_less a c | KArray cs \<Rightarrow> True)"
| "key_less (KArray as) b = (case b of KArray cs \<Rightarrow> keys_less as cs | _ \<Rightarrow> False)"
| "keys_less [] cs = (cs \<noteq> [])"
| "keys_less (a # as) cs =
     (case cs of [] \<Rightarrow> False | c # cs' \<Rightarrow> key_less a c \<or> (a = c \<and> keys_less as cs'))"

type_synonym index_entry = "idbkey \<times> nat \<times> jsval"

definition entry_less :: "index_entry \<Rightarrow> index_entry \<Rightarrow> bool" where
  "entry_less a b \<longleftrightarrow>
     key_less (fst a) (fst b) \<or> (fst a = fst b \<and> fst (snd a) < fst (snd b))"

fun insert_entry :: "index_entry \<Rightarrow> index_entry list \<Rightarrow> index_entry list" where
  "insert_entry a [] = [a]"
| "insert_entry a (b # bs) = (if entry_less a b then a # b # bs else b # insert_entry a bs)"

definition index_entries :: "store \<Rightarrow> index_entry list" where
  "index_entries s =
     foldr insert_entry
       (List.map_filter (\<lambda>r. map_option (\<lambda>k. (k, r)) (index_key (snd r))) (records s)) []"

text \<open>
  \<^verbatim>\<open>index.iterate(query)\<close> opens a cursor on the index. Without a query
  (\<^verbatim>\<open>undefined\<close> or \<^verbatim>\<open>null\<close>) the cursor visits the whole index; with a key it visits
  the records under that key, by ascending primary key; any other query is a DataError.
\<close>

definition records_with_key :: "idbkey \<Rightarrow> store \<Rightarrow> (nat \<times> jsval) list" where
  "records_with_key key s = filter (\<lambda>r. index_key (snd r) = Some key) (records s)"

fun index_iterate :: "jsany \<Rightarrow> store \<Rightarrow> error + (nat \<times> jsval) list" where
  "index_iterate (Data query) s =
     (if query = JUndefined \<or> query = JNull then Inr (map snd (index_entries s))
      else case to_key query of
             None \<Rightarrow> Inl DataError
           | Some key \<Rightarrow> Inr (records_with_key key s))"
| "index_iterate query s = Inl DataError"

section \<open>Search and bulk deletion\<close>

text \<open>
  Optional chaining \<^verbatim>\<open>v?.k\<close> yields \<^verbatim>\<open>undefined\<close> on \<^verbatim>\<open>null\<close> and \<^verbatim>\<open>undefined\<close>
  and is the member expression otherwise; \<^verbatim>\<open>entry?.translation?.originalText\<close> is
  line 183.
\<close>

definition optional_prop :: "realm \<Rightarrow> jsany \<Rightarrow> string \<Rightarrow> error + jsany" where
  "optional_prop R v k =
     (if v = Data JUndefined \<or> v = Data JNull then Inr (Data JUndefined) else getProp R v k)"

definition criteria_originalText :: "realm \<Rightarrow> jsval \<Rightarrow> error + jsany" where
  "criteria_originalText R entry =
     (case optional_prop R (Data entry) ''translation'' of
        Inl e \<Rightarrow> Inl e
      | Inr t \<Rightarrow> optional_prop R t ''originalText'')"

text \<open>
  The loop of \<^verbatim>\<open>findEntry\<close> (lines 191--202): the candidates are compared in the order
  of the cursor and the first match ends the loop.
\<close>

fun findEntry_loop ::
  "realm \<Rightarrow> jsval \<Rightarrow> (nat \<times> jsval) list \<Rightarrow> error + (nat \<times> jsval) option" where
  "findEntry_loop R entry [] = Inr None"
| "findEntry_loop R entry ((key, currentEntry) # rest) =
     (case isEqualIntersection R (Data entry) (Data currentEntry) of
        Inl e \<Rightarrow> Inl e
      | Inr isMatch \<Rightarrow>
          if isMatch then Inr (Some (key, currentEntry)) else findEntry_loop R entry rest)"

text \<open>
  \<^verbatim>\<open>findEntry\<close> (lines 177--207). The transaction is read-only, so the store is not
  part of the result; \<^verbatim>\<open>null\<close> is \<open>None\<close>.
\<close>

definition findEntry :: "realm \<Rightarrow> jsval \<Rightarrow> store \<Rightarrow> error + (nat \<times> jsval) option" where
  "findEntry R entry s =
     (case criteria_originalText R entry of
        Inl e \<Rightarrow> Inl e
      | Inr originalText \<Rightarrow>
          if originalText = Data JUndefined then Inl RequiredError
          else case index_iterate originalText s of
                 Inl e \<Rightarrow> Inl e
               | Inr candidates \<Rightarrow> findEntry_loop R entry candidates)"

text \<open>
  A read-write transaction works on the store and can be undone as a whole: committing
  keeps the changes, aborting restores the store as it was when the transaction began.
  A request that fails aborts its transaction. Which requests fail is decided by the
  storage engine, not by the program; it is a parameter, a predicate that holds of the
  primary keys whose deletion fails.
\<close>

record transaction =
  initial :: store
  current :: store

definition begin_transaction :: "store \<Rightarrow> transaction" where
  "begin_transaction s = \<lparr>initial = s, current = s\<rparr>"

definition commit :: "transaction \<Rightarrow> store" where
  "commit tx = current tx"

definition abort :: "transaction \<Rightarrow> store" where
  "abort tx = initial tx"

definition cursor_delete :: "(nat \<Rightarrow> bool) \<Rightarrow> nat \<Rightarrow> transaction \<Rightarrow> error + transaction" where
  "cursor_delete fails key tx =
     (if fails key then Inl RequestError
      else Inr (tx\<lparr>current :=
                  (current tx)\<lparr>records := filter (\<lambda>r. fst r \<noteq> key) (records (current tx))\<rparr>\<rparr>))"

definition no_failure :: "nat \<Rightarrow> bool" where
  "no_failure key = False"

text \<open>
  The test of \<^verbatim>\<open>deleteEntries\<close> (lines 91--93): every key of the criteria must have
  strictly equal values in the criteria and in the \<^verbatim>\<open>translation\<close> of the candidate.
\<close>

definition translation_matches :: "realm \<Rightarrow> props \<Rightarrow> jsval \<Rightarrow> error + bool" where
  "translation_matches R entry currentEntry =
     every (\<lambda>key.
       case getProp R (Data (JObj entry)) key of
         Inl e \<Rightarrow> Inl e
       | Inr a \<Rightarrow>
           (case getProp R (Data currentEntry) ''translation'' of
              Inl e \<Rightarrow> Inl e
            | Inr t \<Rightarrow>
                (case getProp R t key of
                   Inl e \<Rightarrow> Inl e
                 | Inr b \<Rightarrow> Inr (strict_eq a b)))) (map fst entry)"

text \<open>
  The loop of \<^verbatim>\<open>deleteEntries\<close> (lines 87--99). A failed \<^verbatim>\<open>cursor.delete()\<close> aborts the
  transaction and rejects the call. An exception of the loop body would reject the call
  without aborting: nothing in the function calls \<^verbatim>\<open>abort\<close>, and the transaction would
  commit the deletions requested so far.
\<close>

fun deleteEntries_loop ::
  "realm \<Rightarrow> (nat \<Rightarrow> bool) \<Rightarrow> props \<Rightarrow> (nat \<times> jsval) list \<Rightarrow> transaction
     \<Rightarrow> (error + unit) \<times> store" where
  "deleteEntries_loop R fails entry [] tx = (Inr (), commit tx)"
| "deleteEntries_loop R fails entry ((key, currentEntry) # rest) tx =
     (case translation_matches R entry currentEntry of
        Inl e \<Rightarrow> (Inl e, commit tx)
      | Inr ok \<Rightarrow>
          if ok
          then (case cursor_delete fails key tx of
                  Inl e \<Rightarrow> (Inl e, abort tx)
                | Inr tx' \<Rightarrow> deleteEntries_loop R fails entry rest tx')
          else deleteEntries_loop R fails entry rest tx)"

text \<open>
  \<^verbatim>\<open>deleteEntries\<close> (lines 81--100). The criteria are an \<^verbatim>\<open>ITranslation\<close>, an object;
  \<^verbatim>\<open>entry.originalText\<close> is the query of the index cursor.
\<close>

definition deleteEntries ::
  "realm \<Rightarrow> (nat \<Rightarrow> bool) \<Rightarrow> props \<Rightarrow> store \<Rightarrow> (error + unit) \<times> store" where
  "deleteEntries R fails entry s =
     (case getProp R (Data (JObj entry)) ''originalText'' of
        Inl e \<Rightarrow> (Inl e, s)
      | Inr originalText \<Rightarrow>
          (case index_iterate originalText s of
             Inl e \<Rightarrow> (Inl e, s)
           | Inr candidates \<Rightarrow>
               deleteEntries_loop R fails entry candidates (begin_transaction s)))"

text \<open>
  The records that a call of \<^verbatim>\<open>deleteEntries\<close> is to remove: the candidates of its
  cursor that pass its test.
\<close>

definition qualifying :: "realm \<Rightarrow> props \<Rightarrow> store \<Rightarrow> (nat \<times> jsval) list" where
  "qualifying R entry s =
     (case getProp R (Data (JObj entry)) ''originalText'' of
        Inl e \<Rightarrow> []
      | Inr originalText \<Rightarrow>
          (case index_iterate originalText s of
             Inl e \<Rightarrow> []
           | Inr candidates \<Rightarrow>
               filter (\<lambda>r. translation_matches R entry (snd r) = Inr True) candidates))"

text \<open>
  The value of \<^verbatim>\<open>v[k]\<close> where the expression does not throw, and the value that the
  test of \<^verbatim>\<open>deleteEntries\<close> reads, \<^verbatim>\<open>currentEntry.translation[key]\<close>.
\<close>

definition read_prop :: "realm \<Rightarrow> jsany \<Rightarrow> string \<Rightarrow> jsany" where
  "read_prop R v k = (case getProp R v k of Inl e \<Rightarrow> Data JUndefined | Inr w \<Rightarrow> w)"

definition translation_of :: "realm \<Rightarrow> jsval \<Rightarrow> jsany" where
  "translation_of R currentEntry = read_prop R (Data currentEntry) ''translation''"

subsection \<open>Sample data\<close>

text \<open>
  A realm for the sample computations. For objects it has what every realm has: the
  members of \<^verbatim>\<open>Object.prototype\<close>, which are the constructor, ten methods and the
  accessor \<^verbatim>\<open>__proto__\<close>. The samples read properties of objects only. For strings,
  numbers, booleans and arrays the sample realm has the constructor, the prototype and the
  same ten methods, without the members that their prototypes add or replace, and it
  gives the built-ins themselves no property.
\<close>

definition object_prototype_methods :: "string list" where
  "object_prototype_methods =
     [''toString'', ''toLocaleString'', ''valueOf'', ''hasOwnProperty'', ''isPrototypeOf'',
      ''propertyIsEnumerable'', ''__defineGetter__'', ''__defineSetter__'',
      ''__lookupGetter__'', ''__lookupSetter__'']"

fun constructor_name :: "receiver \<Rightarrow> string" where
  "constructor_name ObjectReceiver = ''Object''"
| "constructor_name ArrayReceiver = ''Array''"
| "constructor_name StringReceiver = ''String''"
| "constructor_name NumberReceiver = ''Number''"
| "constructor_name BooleanReceiver = ''Boolean''"

definition sample_inherited :: "receiver \<Rightarrow> string \<Rightarrow> jsany" where
  "sample_inherited r k =
     (if k = ''constructor'' then BuiltinFunction (constructor_name r)
      else if k = ''__proto__'' then BuiltinObject (constructor_name r @ ''.prototype'')
      else if k \<in> set object_prototype_methods then BuiltinFunction (''Object.prototype.'' @ k)
      else Data JUndefined)"

definition sample_realm :: realm where
  "sample_realm = \<lparr>inherited = sample_inherited, builtin_prop = (\<lambda>b k. Some (Data JUndefined))\<rparr>"

text \<open>
  A store in the shape of the history of translations: four records, three of them with
  the original text \<^verbatim>\<open>x\<close>. A second store holds a record of that shape and a record
  whose translation has a nested field.
\<close>

definition example_record :: "nat \<Rightarrow> string \<Rightarrow> string \<Rightarrow> nat \<times> jsval" where
  "example_record key originalText lang =
     (key, JObj [(''translation'',
                    JObj [(''originalText'', JStr originalText), (''lang'', JStr lang)]),
                 (''timestamp'', JNum (Finite 5)), (''id'', JNum (key_num key))])"

definition example_store :: store where
  "example_store =
     \<lparr>records = [example_record 1 ''x'' ''en'', example_record 2 ''x'' ''fr'',
                 example_record 3 ''y'' ''en'', example_record 4 ''x'' ''fr''],
      keyGenerator = 5\<rparr>"

definition example_nested :: props where
  "example_nested = [(''originalText'', JStr ''x''), (''meta'', JObj [(''a'', JNum (Finite 1))])]"

definition nested_record :: "nat \<times> jsval" where
  "nested_record =
     (2, JObj [(''translation'', JObj example_nested),
               (''timestamp'', JNum (Finite 5)), (''id'', JNum (Finite 2))])"

definition nested_store :: store where
  "nested_store = \<lparr>records = [example_record 1 ''x'' ''en'', nested_record], keyGenerator = 3\<rparr>"

lemmas example_defs = example_store_def example_record_def example_nested_def nested_store_def
  nested_record_def

lemmas realm_defs = sample_realm_def sample_inherited_def object_prototype_methods_def
  from_prototype_def from_builtin_def is_numeral_def

lemmas eval_defs = records_with_key_def lookup_prop_def index_key_def
  translation_matches_def optional_prop_def criteria_originalText_def key_num_def
  read_prop_def translation_of_def

section \<open>Properties of the matcher\<close>

lemma isEqualIntersection_primitives:
  "typeof a \<noteq> TObject \<Longrightarrow> typeof b \<noteq> TObject \<Longrightarrow>
   isEqualIntersection R a b = Inr (strict_eq a b)"
  by (simp add: isEqualIntersection.simps)

lemma isEqualIntersection_one_array:
  "isArray a \<noteq> isArray b \<Longrightarrow> isEqualIntersection R a b = Inr False"
  by (cases "isArray a"; cases "isArray b"; cases a rule: isArray.cases; cases b rule: isArray.cases)
     (simp_all add: isEqualIntersection.simps)

lemma isEqualIntersection_composite:
  assumes "typeof a = TObject \<or> typeof b = TObject" and "\<not> isArray a" and "\<not> isArray b"
  shows "isEqualIntersection R a b =
     (case object_keys a of
        Inl e \<Rightarrow> Inl e
      | Inr keys \<Rightarrow>
          every (\<lambda>key.
            case getProp R a key of
              Inl e \<Rightarrow> Inl e
            | Inr v1 \<Rightarrow>
                (case getProp R b key of
                   Inl e \<Rightarrow> Inl e
                 | Inr v2 \<Rightarrow> isEqualIntersection R v1 v2)) keys)"
  using assms by (subst isEqualIntersection.simps) auto

lemma isEqual_elems_list_all2: "isEqual_elems xs ys \<longleftrightarrow> list_all2 isEqual xs ys"
  by (induction xs arbitrary: ys) (auto split: list.splits simp: list_all2_Cons1)

lemma isEqualIntersection_arrays:
  "isEqualIntersection R (Data (JArr xs)) (Data (JArr ys)) = Inr (list_all2 isEqual xs ys)"
  by (simp add: isEqualIntersection.simps isEqual_elems_list_all2)

lemma own_prop_read:
  "k \<in> set (map fst ps) \<Longrightarrow> getProp R (Data (JObj ps)) k = Inr (Data (lookup_prop ps k))"
  by (auto simp: lookup_prop_def map_of_eq_None_iff split: option.splits)

lemma isEqualIntersection_objects:
  "isEqualIntersection R (Data (JObj ps)) (Data (JObj qs)) =
     every (\<lambda>k. isEqualIntersection R (Data (lookup_prop ps k)) (read_prop R (Data (JObj qs)) k))
       (map fst ps)"
proof -
  have "isEqualIntersection R (Data (JObj ps)) (Data (JObj qs)) =
          every (\<lambda>key.
            case getProp R (Data (JObj ps)) key of
              Inl e \<Rightarrow> Inl e
            | Inr v1 \<Rightarrow>
                (case getProp R (Data (JObj qs)) key of
                   Inl e \<Rightarrow> Inl e
                 | Inr v2 \<Rightarrow> isEqualIntersection R v1 v2)) (map fst ps)"
    by (subst isEqualIntersection_composite) simp_all
  also have "\<dots> = every (\<lambda>k. isEqualIntersection R (Data (lookup_prop ps k))
                      (read_prop R (Data (JObj qs)) k)) (map fst ps)"
  proof (rule every_cong)
    fix k assume "k \<in> set (map fst ps)"
    then have "getProp R (Data (JObj ps)) k = Inr (Data (lookup_prop ps k))"
      by (rule own_prop_read)
    moreover have "getProp R (Data (JObj qs)) k = Inr (read_prop R (Data (JObj qs)) k)"
      by (simp add: read_prop_def)
    ultimately show "(case getProp R (Data (JObj ps)) k of
              Inl e \<Rightarrow> Inl e
            | Inr v1 \<Rightarrow>
                (case getProp R (Data (JObj qs)) k of
                   Inl e \<Rightarrow> Inl e
                 | Inr v2 \<Rightarrow> isEqualIntersection R v1 v2))
        = isEqualIntersection R (Data (lookup_prop ps k)) (read_prop R (Data (JObj qs)) k)"
      by simp
  qed simp
  finally show ?thesis .
qed

lemma read_prop_extra_key:
  "k \<noteq> k' \<Longrightarrow> read_prop R (Data (JObj (qs @ [(k', v)]))) k = read_prop R (Data (JObj qs)) k"
  by (simp add: read_prop_def map_add_def split: option.splits)

lemma isEqualIntersection_extra_key:
  assumes "k' \<notin> set (map fst ps)"
  shows "isEqualIntersection R (Data (JObj ps)) (Data (JObj (qs @ [(k', v)])))
           = isEqualIntersection R (Data (JObj ps)) (Data (JObj qs))"
  unfolding isEqualIntersection_objects
proof (rule every_cong)
  fix k assume "k \<in> set (map fst ps)"
  with assms have "k \<noteq> k'" by auto
  then show "isEqualIntersection R (Data (lookup_prop ps k))
               (read_prop R (Data (JObj (qs @ [(k', v)]))) k)
           = isEqualIntersection R (Data (lookup_prop ps k)) (read_prop R (Data (JObj qs)) k)"
    by (simp add: read_prop_extra_key)
qed simp

text \<open>
  C3. The claim: on two primitives (string, number, boolean, null, undefined) the matcher
  returns \<^verbatim>\<open>criteria === candidate\<close>, in particular it returns true on null and null and
  does not fail. The first branch of the function, commented "Compare primitive values",
  tests \<^verbatim>\<open>typeof\<close> against \<^verbatim>\<open>'object'\<close>, which is also the type of \<^verbatim>\<open>null\<close>; so
  a null operand is not compared as a primitive. On null and null the function reaches
  \<^verbatim>\<open>Object.keys(null)\<close> and throws a TypeError, as it does on null and 1; on 1 and null
  it returns true, the number having no keys, although \<^verbatim>\<open>1 === null\<close> is false. This
  holds in every realm.
\<close>

theorem isEqualIntersection_null:
  "isEqualIntersection R (Data JNull) (Data JNull) = Inl TypeError \<and>
   isEqualIntersection R (Data JNull) (Data (JNum (Finite 1))) = Inl TypeError \<and>
   isEqualIntersection R (Data (JNum (Finite 1))) (Data JNull) = Inr True \<and>
   strict_eq (Data JNull) (Data JNull) \<and> \<not> strict_eq (Data (JNum (Finite 1))) (Data JNull)"
  by (simp add: isEqualIntersection.simps)

lemmas matcher_eval = isEqualIntersection_objects isEqualIntersection_arrays
  isEqualIntersection_primitives read_prop_def lookup_prop_def realm_defs

text \<open>
  C4. The matcher is one-directional on keyed records and compares sequences in full and
  in order. On records: \<^verbatim>\<open>{a:1}\<close> matches \<^verbatim>\<open>{a:1,b:2}\<close> and \<^verbatim>\<open>{a:1,b:2}\<close> does not
  match \<^verbatim>\<open>{a:1}\<close>, also one level down; in general two records match exactly when, for
  every key of the criteria, the value of the criteria matches what the candidate has
  under that key, so that a key which the criteria do not have can be added to the
  candidate without effect. On sequences: \<^verbatim>\<open>[1,2]\<close> matches \<^verbatim>\<open>[1,2]\<close> and matches
  neither \<^verbatim>\<open>[1,2,3]\<close> nor \<^verbatim>\<open>[2,1]\<close>, and \<^verbatim>\<open>[{a:1}]\<close> does not match
  \<^verbatim>\<open>[{a:1,b:2}]\<close>; in general two sequences match exactly when they have the same
  length and deeply equal elements position by position. Whenever exactly one of the two
  values is an array the result is false.
\<close>

theorem isEqualIntersection_asymmetry:
  "isEqualIntersection sample_realm (Data (JObj [(''a'', JNum (Finite 1))]))
       (Data (JObj [(''a'', JNum (Finite 1)), (''b'', JNum (Finite 2))])) = Inr True \<and>
   isEqualIntersection sample_realm (Data (JObj [(''a'', JNum (Finite 1)), (''b'', JNum (Finite 2))]))
       (Data (JObj [(''a'', JNum (Finite 1))])) = Inr False \<and>
   isEqualIntersection sample_realm (Data (JObj [(''a'', JObj [(''b'', JNum (Finite 1))])]))
       (Data (JObj [(''a'', JObj [(''b'', JNum (Finite 1)), (''c'', JNum (Finite 2))])])) = Inr True \<and>
   isEqualIntersection sample_realm
       (Data (JObj [(''a'', JObj [(''b'', JNum (Finite 1)), (''c'', JNum (Finite 2))])]))
       (Data (JObj [(''a'', JObj [(''b'', JNum (Finite 1))])])) = Inr False \<and>
   isEqualIntersection sample_realm (Data (JArr [JNum (Finite 1), JNum (Finite 2)]))
       (Data (JArr [JNum (Finite 1), JNum (Finite 2), JNum (Finite 3)])) = Inr False \<and>
   isEqualIntersection sample_realm (Data (JArr [JNum (Finite 1), JNum (Finite 2)]))
       (Data (JArr [JNum (Finite 1), JNum (Finite 2)])) = Inr True \<and>
   isEqualIntersection sample_realm (Data (JArr [JNum (Finite 1), JNum (Finite 2)]))
       (Data (JArr [JNum (Finite 2), JNum (Finite 1)])) = Inr False \<and>
   isEqualIntersection sample_realm (Data (JArr [JObj [(''a'', JNum (Finite 1))]]))
       (Data (JArr [JObj [(''a'', JNum (Finite 1)), (''b'', JNum (Finite 2))]])) = Inr False \<and>
   (\<forall>R xs ys. isEqualIntersection R (Data (JArr xs)) (Data (JArr ys))
       = Inr (list_all2 isEqual xs ys)) \<and>
   (\<forall>R a b. isArray a \<noteq> isArray b \<longrightarrow> isEqualIntersection R a b = Inr False) \<and>
   (\<forall>R ps qs. isEqualIntersection R (Data (JObj ps)) (Data (JObj qs)) =
       every (\<lambda>k. isEqualIntersection R (Data (lookup_prop ps k)) (read_prop R (Data (JObj qs)) k))
         (map fst ps)) \<and>
   (\<forall>R ps qs k v. k \<notin> set (map fst ps) \<longrightarrow>
       isEqualIntersection R (Data (JObj ps)) (Data (JObj (qs @ [(k, v)])))
         = isEqualIntersection R (Data (JObj ps)) (Data (JObj qs)))"
proof (intro conjI)
  show "\<forall>R xs ys. isEqualIntersection R (Data (JArr xs)) (Data (JArr ys))
       = Inr (list_all2 isEqual xs ys)"
    by (simp add: isEqualIntersection_arrays)
  show "\<forall>R a b. isArray a \<noteq> isArray b \<longrightarrow> isEqualIntersection R a b = Inr False"
    using isEqualIntersection_one_array by blast
  show "\<forall>R ps qs. isEqualIntersection R (Data (JObj ps)) (Data (JObj qs)) =
       every (\<lambda>k. isEqualIntersection R (Data (lookup_prop ps k)) (read_prop R (Data (JObj qs)) k))
         (map fst ps)"
    using isEqualIntersection_objects by blast
  show "\<forall>R ps qs k v. k \<notin> set (map fst ps) \<longrightarrow>
       isEqualIntersection R (Data (JObj ps)) (Data (JObj (qs @ [(k, v)])))
         = isEqualIntersection R (Data (JObj ps)) (Data (JObj qs))"
    using isEqualIntersection_extra_key by blast
qed (simp_all add: matcher_eval)

theorem isEqualIntersection_asymmetry_witness:
  "isArray (Data (JArr [JNum (Finite 1)])) \<noteq> isArray (Data (JObj [(''0'', JNum (Finite 1))])) \<and>
   isEqualIntersection sample_realm (Data (JArr [JNum (Finite 1)]))
     (Data (JObj [(''0'', JNum (Finite 1))])) = Inr False \<and>
   isEqualIntersection sample_realm (Data JNull) (Data (JArr [])) = Inr False \<and>
   ''b'' \<notin> set (map fst [(''a'', JNum (Finite 1))]) \<and>
   isEqualIntersection sample_realm (Data (JObj [(''a'', JNum (Finite 1))]))
     (Data (JObj ([(''a'', JNum (Finite 1))] @ [(''b'', JNum (Finite 2))])))
     = isEqualIntersection sample_realm (Data (JObj [(''a'', JNum (Finite 1))]))
         (Data (JObj [(''a'', JNum (Finite 1))]))"
proof -
  have arr: "\<forall>R a b. isArray a \<noteq> isArray b \<longrightarrow> isEqualIntersection R a b = Inr False"
    using isEqualIntersection_asymmetry by (elim conjE)
  have extra: "\<forall>R ps qs k v. k \<notin> set (map fst ps) \<longrightarrow>
       isEqualIntersection R (Data (JObj ps)) (Data (JObj (qs @ [(k, v)])))
         = isEqualIntersection R (Data (JObj ps)) (Data (JObj qs))"
    using isEqualIntersection_asymmetry by (elim conjE)
  have d1: "isArray (Data (JArr [JNum (Finite 1)])) \<noteq> isArray (Data (JObj [(''0'', JNum (Finite 1))]))"
    and d2: "isArray (Data JNull) \<noteq> isArray (Data (JArr []))"
    and d3: "''b'' \<notin> set (map fst [(''a'', JNum (Finite 1))])"
    by simp_all
  from arr d1 have r1: "isEqualIntersection sample_realm (Data (JArr [JNum (Finite 1)]))
     (Data (JObj [(''0'', JNum (Finite 1))])) = Inr False" by blast
  from arr d2 have r2: "isEqualIntersection sample_realm (Data JNull) (Data (JArr [])) = Inr False"
    by blast
  from extra d3 have r3: "isEqualIntersection sample_realm (Data (JObj [(''a'', JNum (Finite 1))]))
     (Data (JObj ([(''a'', JNum (Finite 1))] @ [(''b'', JNum (Finite 2))])))
     = isEqualIntersection sample_realm (Data (JObj [(''a'', JNum (Finite 1))]))
         (Data (JObj [(''a'', JNum (Finite 1))]))" by blast
  from d1 r1 r2 d3 r3 show ?thesis by (intro conjI)
qed

text \<open>
  C10. The claim: a criteria value with no enumerable keys that is an object, or a
  primitive other than a string, such as a number, matches every candidate that is not an
  array. It fails when both values are primitives, which the first branch compares with
  \<^verbatim>\<open>===\<close>: 5 does not match 7.
\<close>

theorem isEqualIntersection_vacuous_counterexample:
  "typeof (Data (JNum (Finite 5))) = TNumber \<and> object_keys (Data (JNum (Finite 5))) = Inr [] \<and>
   \<not> isArray (Data (JNum (Finite 7))) \<and>
   isEqualIntersection sample_realm (Data (JNum (Finite 5))) (Data (JNum (Finite 7))) = Inr False"
  by (simp add: isEqualIntersection.simps)

text \<open>
  C10, amended. A criteria value that has no enumerable keys and is not an array (an empty
  object, a number, a boolean, the empty string) matches a candidate that is not an array
  whenever one of the two has \<^verbatim>\<open>typeof\<close> \<^verbatim>\<open>'object'\<close>: the empty object matches every
  candidate that is not an array, primitives, \<^verbatim>\<open>null\<close> and \<^verbatim>\<open>undefined\<close> included,
  and a number matches every object that is not an array, and \<^verbatim>\<open>null\<close>.
\<close>

theorem isEqualIntersection_vacuous:
  "object_keys c = Inr [] \<Longrightarrow> \<not> isArray c \<Longrightarrow> \<not> isArray v \<Longrightarrow>
   typeof c = TObject \<or> typeof v = TObject \<Longrightarrow> isEqualIntersection R c v = Inr True"
  by (auto simp add: isEqualIntersection.simps)

theorem isEqualIntersection_vacuous_witness:
  "object_keys (Data (JObj [])) = Inr [] \<and> \<not> isArray (Data (JObj [])) \<and>
   \<not> isArray (Data (JStr ''x'')) \<and> typeof (Data (JObj [])) = TObject \<and>
   isEqualIntersection sample_realm (Data (JObj [])) (Data (JStr ''x'')) = Inr True \<and>
   object_keys (Data (JNum (Finite 5))) = Inr [] \<and> typeof (Data JNull) = TObject \<and>
   isEqualIntersection sample_realm (Data (JNum (Finite 5))) (Data JNull) = Inr True"
  using isEqualIntersection_vacuous [of "Data (JObj [])" "Data (JStr ''x'')" sample_realm]
    isEqualIntersection_vacuous [of "Data (JNum (Finite 5))" "Data JNull" sample_realm]
  by simp

section \<open>Properties of the single-record operations\<close>

lemma key_num_eq [simp]: "key_num a = key_num b \<longleftrightarrow> a = b"
  by (simp add: key_num_def)

lemma key_num_not_NaN [simp]: "key_num a \<noteq> NaN"
  by (simp add: key_num_def)

lemma find_append_new:
  "list_all (\<lambda>r. \<not> P r) xs \<Longrightarrow> P x \<Longrightarrow> find P (xs @ [x]) = Some x"
  by (induction xs) auto

lemma find_filter_None: "find P (filter (\<lambda>r. \<not> P r) xs) = None"
  by (induction xs) auto

lemma filter_find_None: "find P xs = None \<Longrightarrow> filter (\<lambda>r. \<not> P r) xs = xs"
  by (induction xs) (auto split: if_splits)

lemma store_ok_empty: "store_ok empty_store"
  by (simp add: store_ok_def empty_store_def)

lemma store_ok_addEntry: "store_ok s \<Longrightarrow> store_ok (snd (addEntry e s))"
  by (auto simp: store_ok_def addEntry_def Let_def sorted_wrt_append list_all_iff less_Suc_eq)

lemma store_ok_filter: "store_ok s \<Longrightarrow> store_ok (s\<lparr>records := filter P (records s)\<rparr>)"
  by (simp add: store_ok_def sorted_wrt_map sorted_wrt_filter list_all_iff)

lemma store_ok_deleteEntry: "store_ok s \<Longrightarrow> deleteEntry entryId s = Inr s' \<Longrightarrow> store_ok s'"
  by (auto simp: deleteEntry_def store_ok_filter split: if_splits)

lemma store_ok_flush: "store_ok s \<Longrightarrow> store_ok (flush s)"
  unfolding flush_def by (rule store_ok_filter)

text \<open>
  C6. The claim: \<^verbatim>\<open>getEntry\<close> on the key that \<^verbatim>\<open>addEntry(e)\<close> returned yields \<^verbatim>\<open>e\<close>
  unchanged. The store has the key path \<^verbatim>\<open>id\<close>, so the value it keeps and returns is
  the entry with one more property, \<^verbatim>\<open>id\<close>, holding the key; it differs from the entry.
\<close>

theorem addEntry_getEntry_counterexample:
  "getEntry
     (key_num (fst (addEntry \<lparr>translation = [(''originalText'', JStr ''x'')],
                              timestamp = Finite 5, translator = None\<rparr> empty_store)))
     (snd (addEntry \<lparr>translation = [(''originalText'', JStr ''x'')],
                     timestamp = Finite 5, translator = None\<rparr> empty_store))
   \<noteq> Inr (Some (JObj (entry_props \<lparr>translation = [(''originalText'', JStr ''x'')],
                                     timestamp = Finite 5, translator = None\<rparr>)))"
  by (simp add: addEntry_def empty_store_def stored_value_def entry_props_def key_num_def
        getEntry_def)

text \<open>
  C6, amended. \<^verbatim>\<open>addEntry(e)\<close> returns the key that the generator assigns to the new
  record, and \<^verbatim>\<open>getEntry\<close> on that key returns the properties of \<^verbatim>\<open>e\<close>, unchanged,
  followed by the property \<^verbatim>\<open>id\<close> whose value is the key.
\<close>

theorem addEntry_getEntry:
  assumes "store_ok s" and "addEntry e s = (key, s')"
  shows "key = keyGenerator s \<and>
         getEntry (key_num key) s' =
           Inr (Some (JObj (entry_props e @ [(''id'', JNum (key_num key))])))"
proof -
  from assms(2) have key: "key = keyGenerator s"
    and s': "records s' = records s @ [(key, stored_value e key)]"
    by (auto simp: addEntry_def Let_def)
  from assms(1) key have "list_all (\<lambda>r. \<not> key_num (fst r) = key_num key) (records s)"
    by (auto simp: store_ok_def list_all_iff)
  then have "find (\<lambda>r. key_num (fst r) = key_num key) (records s')
               = Some (key, stored_value e key)"
    unfolding s' by (rule find_append_new) simp
  with key show ?thesis by (simp add: getEntry_def stored_value_def)
qed

theorem addEntry_getEntry_witness:
  "store_ok empty_store \<and>
   addEntry \<lparr>translation = [(''originalText'', JStr ''x'')], timestamp = Finite 5,
             translator = None\<rparr> empty_store =
     (1, \<lparr>records = [(1, JObj [(''translation'', JObj [(''originalText'', JStr ''x'')]),
                               (''timestamp'', JNum (Finite 5)), (''id'', JNum (Finite 1))])],
          keyGenerator = 2\<rparr>) \<and>
   getEntry (Finite 1)
     \<lparr>records = [(1, JObj [(''translation'', JObj [(''originalText'', JStr ''x'')]),
                           (''timestamp'', JNum (Finite 5)), (''id'', JNum (Finite 1))])],
      keyGenerator = 2\<rparr>
     = Inr (Some (JObj [(''translation'', JObj [(''originalText'', JStr ''x'')]),
                        (''timestamp'', JNum (Finite 5)), (''id'', JNum (Finite 1))]))"
proof -
  have ok: "store_ok empty_store" by (rule store_ok_empty)
  have add: "addEntry \<lparr>translation = [(''originalText'', JStr ''x'')], timestamp = Finite 5,
                       translator = None\<rparr> empty_store =
     (1, \<lparr>records = [(1, JObj [(''translation'', JObj [(''originalText'', JStr ''x'')]),
                               (''timestamp'', JNum (Finite 5)), (''id'', JNum (Finite 1))])],
          keyGenerator = 2\<rparr>)"
    by (simp add: addEntry_def empty_store_def stored_value_def entry_props_def key_num_def)
  from addEntry_getEntry [OF ok add, THEN conjunct2]
  have get: "getEntry (Finite 1)
     \<lparr>records = [(1, JObj [(''translation'', JObj [(''originalText'', JStr ''x'')]),
                           (''timestamp'', JNum (Finite 5)), (''id'', JNum (Finite 1))])],
      keyGenerator = 2\<rparr>
     = Inr (Some (JObj [(''translation'', JObj [(''originalText'', JStr ''x'')]),
                        (''timestamp'', JNum (Finite 5)), (''id'', JNum (Finite 1))]))"
    by (simp add: entry_props_def key_num_def)
  from ok add get show ?thesis by (intro conjI)
qed

text \<open>
  C9. For every key \<open>k\<close> (a number other than \<^verbatim>\<open>NaN\<close>, which IndexedDB does not
  accept as a key), \<^verbatim>\<open>deleteEntry(k)\<close> completes, and afterwards \<^verbatim>\<open>getEntry(k)\<close> is
  absent; deleting again completes and changes nothing, and deleting a key that has no
  record leaves the store as it was.
\<close>

theorem deleteEntry_final:
  assumes "entryId \<noteq> NaN"
  shows "\<exists>s'. deleteEntry entryId s = Inr s' \<and> getEntry entryId s' = Inr None \<and>
              deleteEntry entryId s' = Inr s' \<and>
              (getEntry entryId s = Inr None \<longrightarrow> s' = s)"
proof -
  let ?P = "\<lambda>r. key_num (fst r) = entryId"
  let ?s' = "s\<lparr>records := filter (\<lambda>r. \<not> ?P r) (records s)\<rparr>"
  from assms have "deleteEntry entryId s = Inr ?s'" by (simp add: deleteEntry_def)
  moreover from assms have "getEntry entryId ?s' = Inr None"
    by (simp add: getEntry_def find_filter_None)
  moreover from assms have "deleteEntry entryId ?s' = Inr ?s'"
    by (simp add: deleteEntry_def)
  moreover have "getEntry entryId s = Inr None \<longrightarrow> ?s' = s"
    using assms by (auto simp: getEntry_def dest: filter_find_None)
  ultimately show ?thesis by blast
qed

theorem deleteEntry_final_witness:
  "Finite 7 \<noteq> NaN \<and>
   getEntry (Finite 7) example_store = Inr None \<and>
   deleteEntry (Finite 7) example_store = Inr example_store \<and>
   Finite 2 \<noteq> NaN \<and>
   (\<exists>s'. deleteEntry (Finite 2) example_store = Inr s' \<and> getEntry (Finite 2) s' = Inr None)"
proof -
  have absent: "getEntry (Finite 7) example_store = Inr None"
    by (simp add: getEntry_def key_num_def example_store_def example_record_def)
  from deleteEntry_final [of "Finite 7" example_store] obtain s'
    where "deleteEntry (Finite 7) example_store = Inr s'"
      and "getEntry (Finite 7) example_store = Inr None \<longrightarrow> s' = example_store"
    by auto
  with absent have noop: "deleteEntry (Finite 7) example_store = Inr example_store" by simp
  from deleteEntry_final [of "Finite 2" example_store]
  have gone: "\<exists>s'. deleteEntry (Finite 2) example_store = Inr s' \<and> getEntry (Finite 2) s' = Inr None"
    by auto
  from absent noop gone show ?thesis by simp
qed

section \<open>Properties of the paginated enumeration\<close>

lemma getEntries_loop_collect:
  "isJumped \<or> \<not> is_positive from \<Longrightarrow>
   getEntries_loop from limit isJumped counter xs acc =
     Inr (acc @ (case limit of None \<Rightarrow> xs | Some l \<Rightarrow> take (nat (l - counter)) xs))"
proof (induction xs arbitrary: counter acc)
  case Nil
  then show ?case by (simp split: option.splits)
next
  case (Cons x xs)
  show ?case
  proof (cases limit)
    case None
    with Cons show ?thesis by auto
  next
    case (Some l)
    show ?thesis
    proof (cases "counter + 1 > l")
      case True
      with Some Cons.prems show ?thesis by auto
    next
      case False
      then have "nat (l - counter) = Suc (nat (l - (counter + 1)))" by simp
      with False Some Cons show ?thesis by auto
    qed
  qed
qed

lemma getEntries_loop_jump:
  assumes "is_positive from" and "unsigned_long (the from)"
  shows "getEntries_loop from limit False counter xs acc =
     Inr (acc @ (case limit of None \<Rightarrow> drop (nat (the from)) xs
                 | Some l \<Rightarrow> take (nat (l - counter)) (drop (nat (the from)) xs)))"
proof (cases xs)
  case Nil
  then show ?thesis by (simp split: option.splits)
next
  case (Cons x xs')
  with assms show ?thesis
    using getEntries_loop_collect [of True "from" limit counter "drop (nat (the from)) xs" acc]
    by simp
qed

lemma getEntries_loop_range:
  assumes "is_positive from" and "\<not> unsigned_long (the from)" and "xs \<noteq> []"
  shows "getEntries_loop from limit False counter xs acc = Inl TypeError"
  using assms by (cases xs) simp_all

lemma getEntries_page:
  assumes "f \<le> 4294967295"
  shows "getEntries (Some f) (Some l) options s =
     Inr (take (nat l) (drop (nat f)
       (openCursor (case options of None \<Rightarrow> Desc | Some ord \<Rightarrow> ord) s)))"
proof (cases "f > 0")
  case True
  with assms have "is_positive (Some f)" and "unsigned_long (the (Some f))"
    by (simp_all add: is_positive_def unsigned_long_def)
  from getEntries_loop_jump [OF this, of "Some l" 0 _ "[]"] show ?thesis
    by (simp add: getEntries_def Let_def)
next
  case False
  then have "\<not> is_positive (Some f)" by (simp add: is_positive_def)
  then have "getEntries_loop (Some f) (Some l) False 0 xs [] = Inr (take (nat l) xs)" for xs
    using getEntries_loop_collect [of False "Some f" "Some l" 0 xs "[]"] by simp
  moreover from False have "nat f = 0" by simp
  ultimately show ?thesis
    by (simp add: getEntries_def Let_def)
qed

lemma getEntries_all:
  "getEntries None None options s =
     Inr (openCursor (case options of None \<Rightarrow> Desc | Some ord \<Rightarrow> ord) s)"
  using getEntries_loop_collect [of False None None 0 _ "[]"]
  by (simp add: getEntries_def Let_def is_positive_def)

lemma getEntries_limit_zero:
  assumes "case from of None \<Rightarrow> True | Some f \<Rightarrow> f \<le> 4294967295"
  shows "getEntries from (Some 0) options s = Inr []"
proof (cases "is_positive from")
  case True
  with assms have "unsigned_long (the from)"
    by (auto simp: is_positive_def unsigned_long_def split: option.splits)
  from getEntries_loop_jump [OF True this, of "Some 0" 0 _ "[]"] show ?thesis
    by (simp add: getEntries_def Let_def)
next
  case False
  then show ?thesis
    using getEntries_loop_collect [of False "from" "Some 0" 0 _ "[]"]
    by (simp add: getEntries_def Let_def)
qed

lemma getEntries_beyond:
  assumes "f > int (length (records s))" and "f \<le> 4294967295"
  shows "getEntries (Some f) limit options s = Inr []"
proof -
  from assms have pos: "is_positive (Some f)" and rng: "unsigned_long (the (Some f))"
    by (simp_all add: is_positive_def unsigned_long_def)
  have len: "length (openCursor ord s) \<le> nat f" for ord
    using assms by (simp add: openCursor_def)
  from getEntries_loop_jump [OF pos rng, of limit 0 _ "[]"] len show ?thesis
    by (auto simp: getEntries_def Let_def split: option.splits)
qed

lemma take_drop_pages:
  assumes "length xs - k \<le> m"
  shows "take k xs @ take m (drop k xs) = xs"
proof -
  from assms have "take m (drop k xs) = drop k xs" by simp
  then show ?thesis by simp
qed

text \<open>
  C5. The claim: an offset beyond the size of the collection gives the empty sequence,
  and so does the limit 0. The offset is handed to \<^verbatim>\<open>cursor.advance\<close>, which takes an
  \<^verbatim>\<open>unsigned long\<close>: on a store that is not empty an offset of \<open>2\<^sup>3\<^sup>2\<close> is a
  TypeError, with or without the limit 0.
\<close>

theorem getEntries_range_counterexample:
  "int (length (records example_store)) < 4294967296 \<and>
   getEntries (Some 4294967296) None None example_store = Inl TypeError \<and>
   getEntries (Some 4294967296) (Some 0) None example_store = Inl TypeError"
  by (simp add: getEntries_def openCursor_def example_store_def is_positive_def
        unsigned_long_def)

text \<open>
  C5, amended. On a store that holds \<open>N\<close> records: \<^verbatim>\<open>getEntries(0, N, {order: 'desc'})\<close>
  returns all of them by strictly decreasing key; without \<^verbatim>\<open>from\<close> and \<^verbatim>\<open>limit\<close> and
  with order \<^verbatim>\<open>'asc'\<close> it returns all of them by increasing key; for every \<open>k \<le> N\<close>
  the page of the first \<open>k\<close> followed by the page of \<open>N - k\<close> from offset \<open>k\<close> is the
  page of the first \<open>N\<close>, in either order; an offset beyond \<open>N\<close> gives the empty
  sequence; and the limit 0 gives the empty sequence; each of the last three for an
  offset of at most \<open>2\<^sup>3\<^sup>2 - 1\<close>.
\<close>

theorem getEntries_pagination:
  assumes "store_ok s"
  shows "getEntries (Some 0) (Some (int (length (records s)))) (Some Desc) s
           = Inr (rev (records s)) \<and>
         sorted_wrt (>) (map fst (rev (records s))) \<and>
         getEntries None None (Some Asc) s = Inr (records s) \<and>
         sorted_wrt (<) (map fst (records s)) \<and>
         (k \<le> int (length (records s)) \<and> k \<le> 4294967295 \<longrightarrow>
            (\<exists>first rest.
               getEntries (Some 0) (Some k) options s = Inr first \<and>
               getEntries (Some k) (Some (int (length (records s)) - k)) options s = Inr rest \<and>
               getEntries (Some 0) (Some (int (length (records s)))) options s
                 = Inr (first @ rest))) \<and>
         (f > int (length (records s)) \<and> f \<le> 4294967295 \<longrightarrow>
            getEntries (Some f) limit options s = Inr []) \<and>
         ((case from of None \<Rightarrow> True | Some f \<Rightarrow> f \<le> 4294967295) \<longrightarrow>
            getEntries from (Some 0) options s = Inr [])"
proof (intro conjI impI)
  show "getEntries (Some 0) (Some (int (length (records s)))) (Some Desc) s = Inr (rev (records s))"
    by (simp add: getEntries_page openCursor_def)
  show "sorted_wrt (>) (map fst (rev (records s)))"
    using assms by (simp add: store_ok_def sorted_wrt_rev rev_map [symmetric])
  show "getEntries None None (Some Asc) s = Inr (records s)"
    by (simp add: getEntries_all openCursor_def)
  show "sorted_wrt (<) (map fst (records s))"
    using assms by (simp add: store_ok_def)
next
  assume "case from of None \<Rightarrow> True | Some f \<Rightarrow> f \<le> 4294967295"
  then show "getEntries from (Some 0) options s = Inr []"
    by (rule getEntries_limit_zero)
next
  assume "f > int (length (records s)) \<and> f \<le> 4294967295"
  then show "getEntries (Some f) limit options s = Inr []"
    by (simp add: getEntries_beyond)
next
  assume k: "k \<le> int (length (records s)) \<and> k \<le> 4294967295"
  define xs where "xs = openCursor (case options of None \<Rightarrow> Desc | Some ord \<Rightarrow> ord) s"
  have len: "length xs = length (records s)"
    by (simp add: xs_def openCursor_def)
  have "length xs - nat k \<le> nat (int (length (records s)) - k)"
    using k len by linarith
  then have "take (nat k) xs @ take (nat (int (length (records s)) - k)) (drop (nat k) xs) = xs"
    by (rule take_drop_pages)
  moreover have "getEntries (Some 0) (Some k) options s = Inr (take (nat k) xs)"
    by (simp add: getEntries_page xs_def)
  moreover have "getEntries (Some k) (Some (int (length (records s)) - k)) options s
      = Inr (take (nat (int (length (records s)) - k)) (drop (nat k) xs))"
    using k by (simp add: getEntries_page xs_def)
  moreover have "getEntries (Some 0) (Some (int (length (records s)))) options s = Inr xs"
    using len by (simp add: getEntries_page xs_def [symmetric])
  ultimately show "\<exists>first rest.
               getEntries (Some 0) (Some k) options s = Inr first \<and>
               getEntries (Some k) (Some (int (length (records s)) - k)) options s = Inr rest \<and>
               getEntries (Some 0) (Some (int (length (records s)))) options s
                 = Inr (first @ rest)"
    by auto
qed

theorem getEntries_pagination_witness:
  "store_ok example_store \<and>
   getEntries (Some 0) (Some 4) (Some Desc) example_store
     = Inr [example_record 4 ''x'' ''fr'', example_record 3 ''y'' ''en'',
            example_record 2 ''x'' ''fr'', example_record 1 ''x'' ''en''] \<and>
   getEntries None None (Some Asc) example_store
     = Inr [example_record 1 ''x'' ''en'', example_record 2 ''x'' ''fr'',
            example_record 3 ''y'' ''en'', example_record 4 ''x'' ''fr''] \<and>
   (1 :: int) \<le> 4 \<and> (1 :: int) \<le> 4294967295 \<and>
   (\<exists>first rest.
      getEntries (Some 0) (Some 1) None example_store = Inr first \<and>
      getEntries (Some 1) (Some 3) None example_store = Inr rest \<and>
      getEntries (Some 0) (Some 4) None example_store = Inr (first @ rest)) \<and>
   (5 :: int) > 4 \<and> (5 :: int) \<le> 4294967295 \<and>
   getEntries (Some 5) (Some 2) None example_store = Inr [] \<and>
   getEntries (Some 1) (Some 0) None example_store = Inr []"
proof -
  have ok: "store_ok example_store"
    by (simp add: store_ok_def example_store_def example_record_def)
  have len: "int (length (records example_store)) = 4"
    and recs: "records example_store
      = [example_record 1 ''x'' ''en'', example_record 2 ''x'' ''fr'',
         example_record 3 ''y'' ''en'', example_record 4 ''x'' ''fr'']"
    by (simp_all add: example_store_def)
  from getEntries_pagination [OF ok, of 1 None 5 "Some 2" "Some 1"] ok
  show ?thesis unfolding len recs by simp
qed

section \<open>Properties of the search\<close>

lemma store_ok_example: "store_ok example_store"
  by (simp add: store_ok_def example_store_def example_record_def)

lemma findEntry_loop_first:
  "list_all (\<lambda>r. isEqualIntersection R (Data c) (Data (snd r)) = Inr False) pre \<Longrightarrow>
   isEqualIntersection R (Data c) (Data v) = Inr True \<Longrightarrow>
   findEntry_loop R c (pre @ (k, v) # post) = Inr (Some (k, v))"
  by (induction pre) auto

lemma findEntry_loop_none:
  "list_all (\<lambda>r. isEqualIntersection R (Data c) (Data (snd r)) = Inr False) cands \<Longrightarrow>
   findEntry_loop R c cands = Inr None"
  by (induction cands) auto

lemma findEntry_loop_error:
  "findEntry_loop R c cands = Inl e \<Longrightarrow>
   \<exists>r \<in> set cands. isEqualIntersection R (Data c) (Data (snd r)) = Inl e"
  by (induction cands) (auto split: sum.splits if_splits)

lemma to_key_present: "to_key q = Some key \<Longrightarrow> q \<noteq> JUndefined \<and> q \<noteq> JNull"
  by (cases q) auto

lemma findEntry_valid_key:
  "criteria_originalText R c = Inr (Data q) \<Longrightarrow> to_key q = Some key \<Longrightarrow>
   findEntry R c s = findEntry_loop R c (records_with_key key s)"
  by (auto simp: findEntry_def dest: to_key_present)

lemma every_error: "every f xs = Inl e \<Longrightarrow> \<exists>x \<in> set xs. f x = Inl e"
  by (induction xs) (auto split: sum.splits if_splits)

lemma object_keys_error: "object_keys v = Inl e \<Longrightarrow> e = TypeError"
  by (cases v rule: object_keys.cases) auto

lemma getProp_error: "getProp R v k = Inl e \<Longrightarrow> e = TypeError"
  by (cases "(R, v, k)" rule: getProp.cases)
     (auto simp: from_builtin_def split: if_splits option.splits)

lemma isEqualIntersection_error: "isEqualIntersection R a b = Inl e \<Longrightarrow> e = TypeError"
proof (induction R a b rule: isEqualIntersection.induct)
  case (1 R obj1 obj2)
  show ?case
  proof (cases "typeof obj1 \<noteq> TObject \<and> typeof obj2 \<noteq> TObject")
    case True
    with "1.prems" show ?thesis by (simp add: isEqualIntersection_primitives)
  next
    case np: False
    show ?thesis
    proof (cases "isArray obj1 \<or> isArray obj2")
      case True
      with "1.prems" show ?thesis
        by (cases "isArray obj1 \<and> isArray obj2")
           (auto simp: isEqualIntersection.simps split: if_splits)
    next
      case na: False
      then have na': "\<not> (isArray obj1 \<and> isArray obj2)" by simp
      from np na have unfold: "isEqualIntersection R obj1 obj2 =
         (case object_keys obj1 of
            Inl e \<Rightarrow> Inl e
          | Inr keys \<Rightarrow>
              every (\<lambda>key.
                case getProp R obj1 key of
                  Inl e \<Rightarrow> Inl e
                | Inr v1 \<Rightarrow>
                    (case getProp R obj2 key of
                       Inl e \<Rightarrow> Inl e
                     | Inr v2 \<Rightarrow> isEqualIntersection R v1 v2)) keys)"
        by (intro isEqualIntersection_composite) auto
      show ?thesis
      proof (cases "object_keys obj1")
        case (Inl e')
        with unfold "1.prems" show ?thesis
          by (auto dest: object_keys_error)
      next
        case (Inr keys)
        with unfold "1.prems" have "every (\<lambda>key.
                 case getProp R obj1 key of
                   Inl e \<Rightarrow> Inl e
                 | Inr v1 \<Rightarrow>
                     (case getProp R obj2 key of
                        Inl e \<Rightarrow> Inl e
                      | Inr v2 \<Rightarrow> isEqualIntersection R v1 v2)) keys = Inl e"
          by simp
        then obtain key where key: "key \<in> set keys"
          and res: "(case getProp R obj1 key of
                   Inl e \<Rightarrow> Inl e
                 | Inr v1 \<Rightarrow>
                     (case getProp R obj2 key of
                        Inl e \<Rightarrow> Inl e
                      | Inr v2 \<Rightarrow> isEqualIntersection R v1 v2)) = Inl e"
          by (auto dest: every_error)
        from res "1.IH" [OF np na' na Inr key] show ?thesis
          by (auto split: sum.splits dest: getProp_error)
      qed
    qed
  qed
qed

lemma findEntry_first_match:
  assumes "criteria_originalText R criteria = Inr (Data q)" and "to_key q = Some key"
  shows "(records_with_key key s = pre @ (k, v) # post \<and>
          list_all (\<lambda>r. isEqualIntersection R (Data criteria) (Data (snd r)) = Inr False) pre \<and>
          isEqualIntersection R (Data criteria) (Data v) = Inr True
            \<longrightarrow> findEntry R criteria s = Inr (Some (k, v))) \<and>
         (list_all (\<lambda>r. isEqualIntersection R (Data criteria) (Data (snd r)) = Inr False)
             (records_with_key key s)
            \<longrightarrow> findEntry R criteria s = Inr None)"
  using assms by (auto simp: findEntry_valid_key findEntry_loop_first findEntry_loop_none)

lemma findEntry_required_error:
  "findEntry R criteria s = Inl RequiredError \<longleftrightarrow>
   criteria_originalText R criteria = Inr (Data JUndefined)"
proof
  assume "criteria_originalText R criteria = Inr (Data JUndefined)"
  then show "findEntry R criteria s = Inl RequiredError" by (simp add: findEntry_def)
next
  assume req: "findEntry R criteria s = Inl RequiredError"
  show "criteria_originalText R criteria = Inr (Data JUndefined)"
  proof (cases "criteria_originalText R criteria")
    case (Inl e)
    then have "e = TypeError"
      by (auto simp: criteria_originalText_def optional_prop_def
            split: sum.splits if_splits dest: getProp_error)
    with Inl req show ?thesis by (simp add: findEntry_def)
  next
    case (Inr ot)
    show ?thesis
    proof (rule ccontr)
      assume "criteria_originalText R criteria \<noteq> Inr (Data JUndefined)"
      with Inr have present: "ot \<noteq> Data JUndefined" by simp
      with req Inr obtain cands where "findEntry_loop R criteria cands = Inl RequiredError"
        by (cases ot)
           (auto simp: findEntry_def split: sum.splits option.splits if_splits)
      then obtain r where "isEqualIntersection R (Data criteria) (Data (snd r)) = Inl RequiredError"
        by (auto dest: findEntry_loop_error)
      then show False by (auto dest: isEqualIntersection_error)
    qed
  qed
qed

text \<open>
  C2. The claim: with the original text present, the search returns the first record of
  the index that matches. The matcher has no case for a criteria field that holds an
  object where the candidate has no such field: it reads a property of \<^verbatim>\<open>undefined\<close>
  and throws, as it throws on \<^verbatim>\<open>null\<close> in C3. On a store whose first record for the
  original text has no field \<^verbatim>\<open>meta\<close> and whose second has it, criteria with that field
  match the second record, and the search throws a TypeError on the first.
\<close>

theorem findEntry_throws_before_match:
  "criteria_originalText sample_realm (JObj [(''translation'', JObj example_nested)])
     = Inr (Data (JStr ''x'')) \<and>
   records_with_key (KString ''x'') nested_store = [example_record 1 ''x'' ''en'', nested_record] \<and>
   isEqualIntersection sample_realm (Data (JObj [(''translation'', JObj example_nested)]))
     (Data (snd nested_record)) = Inr True \<and>
   findEntry sample_realm (JObj [(''translation'', JObj example_nested)]) nested_store
     = Inl TypeError"
  by (simp add: example_defs eval_defs realm_defs findEntry_def isEqualIntersection.simps)

text \<open>
  C8. The claim: the search raises an error only when the original text is absent from
  the criteria, and a lookup that finds nothing gives the absent value. For the same lack
  of a case in the matcher, criteria with the original text and a nested field, on a
  store where no record has that field, make the search throw a TypeError; with a number
  in place of the nested object the same lookup gives the absent value.
\<close>

theorem findEntry_throws_on_miss:
  "criteria_originalText sample_realm (JObj [(''translation'', JObj example_nested)])
     = Inr (Data (JStr ''x'')) \<and>
   records_with_key (KString ''x'') example_store
     = [example_record 1 ''x'' ''en'', example_record 2 ''x'' ''fr'', example_record 4 ''x'' ''fr''] \<and>
   findEntry sample_realm (JObj [(''translation'', JObj example_nested)]) example_store
     = Inl TypeError \<and>
   findEntry sample_realm
     (JObj [(''translation'', JObj [(''originalText'', JStr ''x''), (''meta'', JNum (Finite 1))])])
     example_store = Inr None"
  by (simp add: example_defs eval_defs realm_defs findEntry_def isEqualIntersection.simps)

section \<open>Properties of the bulk deletion\<close>

lemma every_pure: "every (\<lambda>x. Inr (P x)) xs = Inr (list_all P xs)"
  by (induction xs) auto

lemma getProp_object: "getProp R (Data (JObj ps)) k = Inr (read_prop R (Data (JObj ps)) k)"
  by (simp add: read_prop_def)

lemma index_key_translation:
  assumes "index_key v = Some key"
  shows "\<exists>ps tr. v = JObj ps \<and> map_of ps ''translation'' = Some (JObj tr)"
proof -
  from assms obtain t ot where t: "own_prop v ''translation'' = Some t"
    and ot: "own_prop t ''originalText'' = Some ot"
    by (auto simp: index_key_def split: option.splits)
  from t obtain ps where v: "v = JObj ps" by (cases v) auto
  from ot obtain tr where tr: "t = JObj tr" by (cases t) auto
  from t v have "map_of ps ''translation'' = Some t"
    by (auto split: option.splits if_splits)
  with v tr show ?thesis by blast
qed

lemma translation_of_indexed:
  assumes "index_key v = Some key"
  shows "\<exists>tr. getProp R (Data v) ''translation'' = Inr (Data (JObj tr)) \<and>
              translation_of R v = Data (JObj tr)"
  using index_key_translation [OF assms] by (auto simp: translation_of_def read_prop_def)

lemma translation_matches_indexed:
  assumes "index_key v = Some key"
  shows "translation_matches R entry v =
     Inr (list_all (\<lambda>k. strict_eq (Data (lookup_prop entry k))
                          (read_prop R (translation_of R v) k)) (map fst entry))"
proof -
  from translation_of_indexed [OF assms] obtain tr
    where get: "getProp R (Data v) ''translation'' = Inr (Data (JObj tr))"
      and tr: "translation_of R v = Data (JObj tr)" by blast
  have "translation_matches R entry v =
      every (\<lambda>k. Inr (strict_eq (Data (lookup_prop entry k)) (read_prop R (Data (JObj tr)) k)))
        (map fst entry)"
    unfolding translation_matches_def
  proof (rule every_cong)
    fix k assume "k \<in> set (map fst entry)"
    then have "getProp R (Data (JObj entry)) k = Inr (Data (lookup_prop entry k))"
      by (rule own_prop_read)
    then show "(case getProp R (Data (JObj entry)) k of
         Inl e \<Rightarrow> Inl e
       | Inr a \<Rightarrow>
           (case getProp R (Data v) ''translation'' of
              Inl e \<Rightarrow> Inl e
            | Inr t \<Rightarrow>
                (case getProp R t k of
                   Inl e \<Rightarrow> Inl e
                 | Inr b \<Rightarrow> Inr (strict_eq a b))))
       = Inr (strict_eq (Data (lookup_prop entry k)) (read_prop R (Data (JObj tr)) k))"
      by (simp add: get getProp_object del: getProp.simps)
  qed simp
  also have "\<dots> = Inr (list_all (\<lambda>k. strict_eq (Data (lookup_prop entry k))
                      (read_prop R (Data (JObj tr)) k)) (map fst entry))"
    by (rule every_pure)
  finally show ?thesis by (simp add: tr)
qed

lemma set_insert_entry: "set (insert_entry a bs) = insert a (set bs)"
  by (induction bs) auto

lemma set_foldr_insert_entry: "set (foldr insert_entry xs []) = set xs"
  by (induction xs) (auto simp: set_insert_entry)

lemma index_iterate_candidates:
  assumes "index_iterate q s = Inr cands" and "r \<in> set cands"
  shows "r \<in> set (records s) \<and> (\<exists>key. index_key (snd r) = Some key)"
proof (cases q)
  case (Data d)
  show ?thesis
  proof (cases "d = JUndefined \<or> d = JNull")
    case True
    with assms Data have "r \<in> snd ` set (index_entries s)" by auto
    then show ?thesis
      by (auto simp: index_entries_def set_foldr_insert_entry map_filter_def)
  next
    case False
    with assms Data show ?thesis
      by (auto simp: records_with_key_def split: option.splits)
  qed
qed (use assms in auto)

lemma filter_filter_key:
  "filter (\<lambda>r. fst r \<notin> set ks) (filter (\<lambda>r. fst r \<noteq> key) xs)
     = filter (\<lambda>r. fst r \<notin> set (key # ks)) xs"
  by (induction xs) auto

lemma deleteEntries_loop_result:
  assumes "\<forall>r \<in> set cands. \<exists>b. translation_matches R entry (snd r) = Inr b"
  shows "deleteEntries_loop R fails entry cands tx =
     (if list_ex (\<lambda>r. fails (fst r))
           (filter (\<lambda>r. translation_matches R entry (snd r) = Inr True) cands)
      then (Inl RequestError, initial tx)
      else (Inr (), (current tx)\<lparr>records :=
              filter (\<lambda>r. fst r \<notin> set (map fst
                  (filter (\<lambda>r. translation_matches R entry (snd r) = Inr True) cands)))
                (records (current tx))\<rparr>))"
  using assms
proof (induction cands arbitrary: tx)
  case Nil
  then show ?case by (simp add: commit_def)
next
  case (Cons c cands)
  obtain key cur where c: "c = (key, cur)" by (cases c)
  from Cons.prems c obtain b where b: "translation_matches R entry cur = Inr b" by auto
  from Cons.prems have rest: "\<forall>r \<in> set cands. \<exists>b. translation_matches R entry (snd r) = Inr b"
    by simp
  show ?case
  proof (cases b)
    case False
    with b c Cons.IH [OF rest, of tx] show ?thesis by simp
  next
    case True
    show ?thesis
    proof (cases "fails key")
      case fk: True
      with True b c show ?thesis by (simp add: cursor_delete_def abort_def)
    next
      case fk: False
      let ?tx = "tx\<lparr>current :=
                  (current tx)\<lparr>records := filter (\<lambda>r. fst r \<noteq> key) (records (current tx))\<rparr>\<rparr>"
      have step: "deleteEntries_loop R fails entry (c # cands) tx
                    = deleteEntries_loop R fails entry cands ?tx"
        using True b c fk by (simp add: cursor_delete_def)
      show ?thesis
        unfolding step Cons.IH [OF rest, of ?tx]
        using True b c fk by (simp add: filter_filter_key)
    qed
  qed
qed

lemma deleteEntries_result:
  assumes "index_iterate (read_prop R (Data (JObj entry)) ''originalText'') s = Inr cands"
  shows "deleteEntries R fails entry s =
     (if list_ex (\<lambda>r. fails (fst r)) (qualifying R entry s)
      then (Inl RequestError, s)
      else (Inr (), s\<lparr>records :=
              filter (\<lambda>r. fst r \<notin> set (map fst (qualifying R entry s))) (records s)\<rparr>))"
proof -
  have "\<forall>r \<in> set cands. \<exists>b. translation_matches R entry (snd r) = Inr b"
    using index_iterate_candidates [OF assms] translation_matches_indexed by blast
  from deleteEntries_loop_result [OF this, of fails "begin_transaction s"] assms
  show ?thesis
    by (simp add: deleteEntries_def qualifying_def begin_transaction_def getProp_object
          del: getProp.simps)
qed

lemma deleteEntries_rejected:
  assumes "index_iterate (read_prop R (Data (JObj entry)) ''originalText'') s = Inl e"
  shows "deleteEntries R fails entry s = (Inl e, s)" and "qualifying R entry s = []"
  using assms by (simp_all add: deleteEntries_def qualifying_def getProp_object del: getProp.simps)

lemma store_ok_deleteEntries:
  assumes "store_ok s"
  shows "store_ok (snd (deleteEntries R fails entry s))"
proof (cases "index_iterate (read_prop R (Data (JObj entry)) ''originalText'') s")
  case (Inl e)
  with assms show ?thesis by (simp add: deleteEntries_rejected)
next
  case (Inr cands)
  from deleteEntries_result [OF Inr, of fails] assms show ?thesis
    by (simp add: store_ok_filter)
qed

lemma qualifying_subset:
  "r \<in> set (qualifying R entry s) \<Longrightarrow> r \<in> set (records s)"
  by (cases "index_iterate (read_prop R (Data (JObj entry)) ''originalText'') s")
     (auto simp: qualifying_def getProp_object simp del: getProp.simps
        dest: index_iterate_candidates)

lemma store_ok_distinct: "store_ok s \<Longrightarrow> distinct (map fst (records s))"
  by (simp add: store_ok_def strict_sorted_iff)

lemma store_ok_key_unique:
  assumes "store_ok s" and "r \<in> set (records s)" and "q \<in> set (records s)" and "fst r = fst q"
  shows "r = q"
  using store_ok_distinct [OF assms(1)] assms(2-4)
  by (metis eq_key_imp_eq_value prod.collapse)

lemma qualifying_keys:
  assumes "store_ok s" and "r \<in> set (records s)"
  shows "fst r \<in> set (map fst (qualifying R entry s)) \<longleftrightarrow> r \<in> set (qualifying R entry s)"
  using assms by (auto dest: qualifying_subset store_ok_key_unique)

lemma isEqualIntersection_flat:
  assumes "\<forall>k \<in> set (map fst ps). typeof (Data (lookup_prop ps k)) \<noteq> TObject \<and>
                                    typeof (read_prop R (Data (JObj tr)) k) \<noteq> TObject"
  shows "isEqualIntersection R (Data (JObj ps)) (Data (JObj tr)) =
           Inr (list_all (\<lambda>k. strict_eq (Data (lookup_prop ps k)) (read_prop R (Data (JObj tr)) k))
                  (map fst ps))"
proof -
  have "isEqualIntersection R (Data (JObj ps)) (Data (JObj tr)) =
          every (\<lambda>k. Inr (strict_eq (Data (lookup_prop ps k)) (read_prop R (Data (JObj tr)) k)))
            (map fst ps)"
    unfolding isEqualIntersection_objects
    by (rule every_cong) (use assms in \<open>auto simp: isEqualIntersection_primitives\<close>)
  then show ?thesis by (simp add: every_pure)
qed

lemma deleteEntries_removed:
  assumes ok: "store_ok s" and r: "r \<in> set (records s)"
    and q: "to_key (lookup_prop entry ''originalText'') = Some key"
    and k: "index_key (snd r) = Some key"
  shows "r \<notin> set (records (snd (deleteEntries R no_failure entry s))) \<longleftrightarrow>
         list_all (\<lambda>k. strict_eq (Data (lookup_prop entry k))
                    (read_prop R (translation_of R (snd r)) k)) (map fst entry)"
proof -
  from q have "map_of entry ''originalText'' = Some (lookup_prop entry ''originalText'')"
    by (auto simp: lookup_prop_def split: option.splits)
  then have "read_prop R (Data (JObj entry)) ''originalText''
               = Data (lookup_prop entry ''originalText'')"
    by (simp add: read_prop_def)
  with q have it: "index_iterate (read_prop R (Data (JObj entry)) ''originalText'') s
                     = Inr (records_with_key key s)"
    by (auto dest: to_key_present)
  have nf: "\<not> list_ex (\<lambda>r. no_failure (fst r)) xs" for xs :: "(nat \<times> jsval) list"
    by (simp add: list_ex_iff no_failure_def)
  from deleteEntries_result [OF it, of no_failure] nf
  have "records (snd (deleteEntries R no_failure entry s))
          = filter (\<lambda>r. fst r \<notin> set (map fst (qualifying R entry s))) (records s)"
    by simp
  then have "r \<notin> set (records (snd (deleteEntries R no_failure entry s)))
               \<longleftrightarrow> r \<in> set (qualifying R entry s)"
    using r qualifying_keys [OF ok r, of R entry] by simp
  also have "\<dots> \<longleftrightarrow> translation_matches R entry (snd r) = Inr True"
    using it r k
    by (simp add: qualifying_def records_with_key_def getProp_object del: getProp.simps)
  finally show ?thesis by (simp add: translation_matches_indexed [OF k])
qed

text \<open>
  C1. The claim: the bulk deletion removes a record with the original text of the criteria
  exactly when the recursive matcher of the search holds between the criteria and the
  translation of the record. The deletion compares each field with \<^verbatim>\<open>===\<close> and does not
  descend: criteria with a nested field match, under the recursive matcher, the
  translation with the same nested field, and the deletion leaves that record in place.
\<close>

theorem deleteEntries_recursive_counterexample:
  "to_key (lookup_prop example_nested ''originalText'') = Some (KString ''x'') \<and>
   index_key (snd nested_record) = Some (KString ''x'') \<and>
   isEqualIntersection sample_realm (Data (JObj example_nested))
     (translation_of sample_realm (snd nested_record)) = Inr True \<and>
   deleteEntries sample_realm no_failure example_nested nested_store = (Inr (), nested_store)"
  by (simp add: example_defs eval_defs realm_defs isEqualIntersection.simps deleteEntries_def
        begin_transaction_def commit_def)

text \<open>
  C1, amended. For criteria whose original text is a key of the index and a stored record
  with that original text, the bulk deletion removes the record exactly when every key of
  the criteria has strictly equal (\<^verbatim>\<open>===\<close>) values in the criteria and in the translation
  of the record, read as \<^verbatim>\<open>currentEntry.translation[key]\<close> reads it, inherited
  properties included. This agrees with the recursive matcher of the search whenever the
  values compared, on both sides, are not of type \<^verbatim>\<open>'object'\<close>.
\<close>

theorem deleteEntries_shallow_match:
  assumes "store_ok s" and "r \<in> set (records s)"
    and "to_key (lookup_prop entry ''originalText'') = Some key"
    and "index_key (snd r) = Some key"
  shows "(r \<notin> set (records (snd (deleteEntries R no_failure entry s))) \<longleftrightarrow>
            list_all (\<lambda>k. strict_eq (Data (lookup_prop entry k))
                       (read_prop R (translation_of R (snd r)) k)) (map fst entry)) \<and>
         ((\<forall>k \<in> set (map fst entry).
              typeof (Data (lookup_prop entry k)) \<noteq> TObject \<and>
              typeof (read_prop R (translation_of R (snd r)) k) \<noteq> TObject) \<longrightarrow>
          (r \<notin> set (records (snd (deleteEntries R no_failure entry s))) \<longleftrightarrow>
             isEqualIntersection R (Data (JObj entry)) (translation_of R (snd r)) = Inr True))"
proof (intro conjI impI)
  show removed: "r \<notin> set (records (snd (deleteEntries R no_failure entry s))) \<longleftrightarrow>
            list_all (\<lambda>k. strict_eq (Data (lookup_prop entry k))
                       (read_prop R (translation_of R (snd r)) k)) (map fst entry)"
    using assms by (rule deleteEntries_removed)
  assume prim: "\<forall>k \<in> set (map fst entry).
              typeof (Data (lookup_prop entry k)) \<noteq> TObject \<and>
              typeof (read_prop R (translation_of R (snd r)) k) \<noteq> TObject"
  from translation_of_indexed [OF assms(4)] obtain tr
    where t: "translation_of R (snd r) = Data (JObj tr)" by blast
  from prim have "isEqualIntersection R (Data (JObj entry)) (Data (JObj tr)) =
           Inr (list_all (\<lambda>k. strict_eq (Data (lookup_prop entry k))
                 (read_prop R (Data (JObj tr)) k)) (map fst entry))"
    unfolding t by (rule isEqualIntersection_flat)
  with removed show "r \<notin> set (records (snd (deleteEntries R no_failure entry s))) \<longleftrightarrow>
             isEqualIntersection R (Data (JObj entry)) (translation_of R (snd r)) = Inr True"
    unfolding t by simp
qed

theorem deleteEntries_shallow_match_witness:
  "store_ok example_store \<and>
   example_record 2 ''x'' ''fr'' \<in> set (records example_store) \<and>
   to_key (lookup_prop [(''originalText'', JStr ''x''), (''lang'', JStr ''fr'')] ''originalText'')
     = Some (KString ''x'') \<and>
   index_key (snd (example_record 2 ''x'' ''fr'')) = Some (KString ''x'') \<and>
   example_record 2 ''x'' ''fr'' \<notin> set (records (snd
     (deleteEntries sample_realm no_failure
        [(''originalText'', JStr ''x''), (''lang'', JStr ''fr'')] example_store))) \<and>
   isEqualIntersection sample_realm (Data (JObj [(''originalText'', JStr ''x''), (''lang'', JStr ''fr'')]))
     (translation_of sample_realm (snd (example_record 2 ''x'' ''fr''))) = Inr True \<and>
   example_record 1 ''x'' ''en'' \<in> set (records (snd
     (deleteEntries sample_realm no_failure
        [(''originalText'', JStr ''x''), (''lang'', JStr ''fr'')] example_store))) \<and>
   example_record 3 ''y'' ''en'' \<in> set (records example_store) \<and>
   to_key (lookup_prop [(''originalText'', JStr ''y''), (''constructor'', JUndefined)] ''originalText'')
     = Some (KString ''y'') \<and>
   index_key (snd (example_record 3 ''y'' ''en'')) = Some (KString ''y'') \<and>
   read_prop sample_realm (translation_of sample_realm (snd (example_record 3 ''y'' ''en'')))
     ''constructor'' = BuiltinFunction ''Object'' \<and>
   example_record 3 ''y'' ''en'' \<in> set (records (snd
     (deleteEntries sample_realm no_failure
        [(''originalText'', JStr ''y''), (''constructor'', JUndefined)] example_store)))"
proof -
  let ?c = "[(''originalText'', JStr ''x''), (''lang'', JStr ''fr'')]"
  let ?d = "[(''originalText'', JStr ''y''), (''constructor'', JUndefined)]"
  let ?R = sample_realm
  have ok: "store_ok example_store" by (rule store_ok_example)
  have r2: "example_record 2 ''x'' ''fr'' \<in> set (records example_store)"
    and r1: "example_record 1 ''x'' ''en'' \<in> set (records example_store)"
    and r3: "example_record 3 ''y'' ''en'' \<in> set (records example_store)"
    by (simp_all add: example_store_def)
  have q: "to_key (lookup_prop ?c ''originalText'') = Some (KString ''x'')"
    and qd: "to_key (lookup_prop ?d ''originalText'') = Some (KString ''y'')"
    by (simp_all add: lookup_prop_def)
  have k2: "index_key (snd (example_record 2 ''x'' ''fr'')) = Some (KString ''x'')"
    and k1: "index_key (snd (example_record 1 ''x'' ''en'')) = Some (KString ''x'')"
    and k3: "index_key (snd (example_record 3 ''y'' ''en'')) = Some (KString ''y'')"
    by (simp_all add: index_key_def example_record_def)
  have m2: "list_all (\<lambda>k. strict_eq (Data (lookup_prop ?c k))
      (read_prop ?R (translation_of ?R (snd (example_record 2 ''x'' ''fr''))) k)) (map fst ?c)"
    by (simp add: example_defs eval_defs realm_defs)
  have m1: "\<not> list_all (\<lambda>k. strict_eq (Data (lookup_prop ?c k))
      (read_prop ?R (translation_of ?R (snd (example_record 1 ''x'' ''en''))) k)) (map fst ?c)"
    by (simp add: example_defs eval_defs realm_defs)
  have ctor: "read_prop ?R (translation_of ?R (snd (example_record 3 ''y'' ''en''))) ''constructor''
      = BuiltinFunction ''Object''"
    by (simp add: example_defs eval_defs realm_defs)
  have m3: "\<not> list_all (\<lambda>k. strict_eq (Data (lookup_prop ?d k))
      (read_prop ?R (translation_of ?R (snd (example_record 3 ''y'' ''en''))) k)) (map fst ?d)"
    by (simp add: example_defs eval_defs realm_defs)
  have p2: "\<forall>k \<in> set (map fst ?c). typeof (Data (lookup_prop ?c k)) \<noteq> TObject \<and>
      typeof (read_prop ?R (translation_of ?R (snd (example_record 2 ''x'' ''fr''))) k) \<noteq> TObject"
    by (simp add: example_defs eval_defs realm_defs)
  from deleteEntries_shallow_match [OF ok r2 q k2, of ?R] m2 p2
  have gone: "example_record 2 ''x'' ''fr''
      \<notin> set (records (snd (deleteEntries ?R no_failure ?c example_store)))"
    and match: "isEqualIntersection ?R (Data (JObj ?c))
       (translation_of ?R (snd (example_record 2 ''x'' ''fr''))) = Inr True"
    by blast+
  from deleteEntries_shallow_match [OF ok r1 q k1, of ?R] m1
  have kept: "example_record 1 ''x'' ''en''
      \<in> set (records (snd (deleteEntries ?R no_failure ?c example_store)))"
    by blast
  from deleteEntries_shallow_match [OF ok r3 qd k3, of ?R] m3
  have kept3: "example_record 3 ''y'' ''en''
      \<in> set (records (snd (deleteEntries ?R no_failure ?d example_store)))"
    by blast
  from ok r2 q k2 gone match kept r3 qd k3 ctor kept3 show ?thesis by (intro conjI)
qed

text \<open>
  C7. A call of the bulk deletion is atomic. When it fails, the store is as it was before
  the call; when it completes, the store has lost exactly the qualifying records; and the
  failure of the deletion of any qualifying record, also after other qualifying records
  have been deleted, makes the call fail.
\<close>

theorem deleteEntries_atomic:
  assumes "store_ok s" and "deleteEntries R fails entry s = (result, s')"
  shows "(\<forall>e. result = Inl e \<longrightarrow> s' = s) \<and>
         (result = Inr () \<longrightarrow>
            s' = s\<lparr>records := filter (\<lambda>r. r \<notin> set (qualifying R entry s)) (records s)\<rparr>) \<and>
         (list_ex (\<lambda>r. fails (fst r)) (qualifying R entry s) \<longrightarrow> result = Inl RequestError)"
proof (cases "index_iterate (read_prop R (Data (JObj entry)) ''originalText'') s")
  case (Inl e)
  with assms(2) show ?thesis by (auto simp: deleteEntries_rejected)
next
  case (Inr cands)
  have "filter (\<lambda>r. fst r \<notin> set (map fst (qualifying R entry s))) (records s)
      = filter (\<lambda>r. r \<notin> set (qualifying R entry s)) (records s)"
    by (rule filter_cong) (use assms(1) qualifying_keys in auto)
  with deleteEntries_result [OF Inr, of fails] assms(2) show ?thesis
    by (auto split: if_splits)
qed

theorem deleteEntries_atomic_witness:
  "store_ok example_store \<and>
   qualifying sample_realm [(''originalText'', JStr ''x'')] example_store
     = [example_record 1 ''x'' ''en'', example_record 2 ''x'' ''fr'', example_record 4 ''x'' ''fr''] \<and>
   deleteEntries sample_realm (\<lambda>key. key = 4) [(''originalText'', JStr ''x'')] example_store
     = (Inl RequestError, example_store) \<and>
   deleteEntries sample_realm no_failure [(''originalText'', JStr ''x'')] example_store
     = (Inr (), \<lparr>records = [example_record 3 ''y'' ''en''], keyGenerator = 5\<rparr>)"
proof -
  let ?c = "[(''originalText'', JStr ''x'')]"
  let ?R = sample_realm
  have ok: "store_ok example_store" by (rule store_ok_example)
  have qual: "qualifying ?R ?c example_store
     = [example_record 1 ''x'' ''en'', example_record 2 ''x'' ''fr'', example_record 4 ''x'' ''fr'']"
    by (simp add: qualifying_def example_defs eval_defs realm_defs)
  obtain r1 s1 where run1: "deleteEntries ?R (\<lambda>key. key = 4) ?c example_store = (r1, s1)"
    by (cases "deleteEntries ?R (\<lambda>key. key = 4) ?c example_store")
  have "list_ex (\<lambda>r. fst r = 4) (qualifying ?R ?c example_store)"
    unfolding qual by (simp add: example_record_def)
  with deleteEntries_atomic [OF ok run1] have "r1 = Inl RequestError" and "s1 = example_store"
    by auto
  with run1 have fail: "deleteEntries ?R (\<lambda>key. key = 4) ?c example_store
     = (Inl RequestError, example_store)" by simp
  obtain r2 s2 where run2: "deleteEntries ?R no_failure ?c example_store = (r2, s2)"
    by (cases "deleteEntries ?R no_failure ?c example_store")
  have "r2 = Inr ()"
    using run2 by (simp add: deleteEntries_def example_defs eval_defs realm_defs no_failure_def
        begin_transaction_def commit_def cursor_delete_def)
  with deleteEntries_atomic [OF ok run2]
  have "s2 = example_store\<lparr>records :=
      filter (\<lambda>r. r \<notin> set (qualifying ?R ?c example_store)) (records example_store)\<rparr>"
    by simp
  then have "s2 = \<lparr>records = [example_record 3 ''y'' ''en''], keyGenerator = 5\<rparr>"
    unfolding qual by (simp add: example_store_def example_record_def)
  with run2 \<open>r2 = Inr ()\<close> have complete: "deleteEntries ?R no_failure ?c example_store
     = (Inr (), \<lparr>records = [example_record 3 ''y'' ''en''], keyGenerator = 5\<rparr>)" by simp
  from ok qual fail complete show ?thesis by (intro conjI)
qed

end
